theory Spec2Isabelle
  imports Main
begin

section \<open>The CSV loader\<close>

text \<open>
  The loader reads a delimited-text file into objects according to a column specification.
  JavaScript values that may be absent (\<^verbatim>\<open>undefined\<close>, \<^verbatim>\<open>null\<close>) are options; a thrown
  exception and a rejected promise are values of the type \<open>error\<close>.
\<close>

datatype ColumnType = STRING | NUMERIC | BOOLEAN

record Column =
  name :: string
  type :: ColumnType
  optional :: "bool option"
  destination :: "string option"

record CSVSpec =
  columns :: "Column list"
  isOptional :: "bool option"

record IndexedColumn = Column +
  number :: nat

datatype error =
    DuplicateField string
  | FileDoesNotExist string
  | RequiredColumnMissing string "string list" "string option"
  | TypeError

text \<open>A JavaScript number is either \<^verbatim>\<open>NaN\<close> or some other value of the opaque type \<open>'n\<close>.\<close>

datatype 'n jsnumber = NaN | Val 'n

datatype 'n jsvalue = Undefined | Str string | Num "'n jsnumber" | Bool bool

type_synonym 'n object = "string \<rightharpoonup> 'n jsvalue"

datatype ('e, 'a) promise = Resolved 'a | Rejected 'e

text \<open>The calls the loader makes to the file system, in order.\<close>

datatype io = FileExists string | ParseCSV string

text \<open>
  What the loader takes from outside the module: \<^verbatim>\<open>utils.findDuplicate\<close> and
  \<^verbatim>\<open>utils.fileExists\<close>; of the built-in \<^verbatim>\<open>Number\<close> conversion, the floating-point value
  of a numeric literal and the result for a string with non-ASCII characters; and for every
  file name the batches of rows that \<^verbatim>\<open>parseCSV\<close> reads from it.
\<close>

record 'n Env =
  findDuplicate :: "string list \<Rightarrow> string option"
  fileExists :: "string \<Rightarrow> bool"
  literalValue :: "string \<Rightarrow> 'n"
  NumberNonAscii :: "string \<Rightarrow> 'n jsnumber"
  batches :: "string \<Rightarrow> string list list list"

text \<open>Truthiness of an optional boolean and of an optional string (the empty string is falsy).\<close>

definition truthyBool :: "bool option \<Rightarrow> bool" where
  "truthyBool b = (b = Some True)"

definition truthyString :: "string option \<Rightarrow> bool" where
  "truthyString s = (case s of None \<Rightarrow> False | Some t \<Rightarrow> t \<noteq> [])"

text \<open>The expression \<^verbatim>\<open>c.destination || c.name\<close>.\<close>

definition destinationOrName :: "'a Column_scheme \<Rightarrow> string" where
  "destinationOrName c =
     (case destination c of
        None \<Rightarrow> name c
      | Some d \<Rightarrow> if d \<noteq> [] then d else name c)"

definition findSpecError :: "'n Env \<Rightarrow> CSVSpec \<Rightarrow> error option" where
  "findSpecError env spec =
     (let fields = map destinationOrName (columns spec);
          dupe = findDuplicate env fields
      in if truthyString dupe then map_option DuplicateField dupe else None)"

text \<open>\<^verbatim>\<open>Array.prototype.indexOf\<close>: the first position of the element, \<open>None\<close> for \<open>-1\<close>.\<close>

fun indexOf :: "'a list \<Rightarrow> 'a \<Rightarrow> nat option" where
  "indexOf [] x = None"
| "indexOf (y # ys) x = (if y = x then Some 0 else map_option Suc (indexOf ys x))"

definition indexed :: "Column \<Rightarrow> nat \<Rightarrow> IndexedColumn" where
  "indexed column colNum =
     \<lparr>name = name column, type = type column, optional = optional column,
      destination = destination column, number = colNum\<rparr>"

text \<open>
  The header is \<^verbatim>\<open>rows[0]\<close> of the first batch, \<^verbatim>\<open>undefined\<close> when that batch is empty;
  \<^verbatim>\<open>header.indexOf\<close> then throws a TypeError at the first column.
\<close>

fun extractColumnMapping ::
  "Column list \<Rightarrow> string list option \<Rightarrow> string option \<Rightarrow> error + IndexedColumn list" where
  "extractColumnMapping [] header filename = Inr []"
| "extractColumnMapping (column # rest) header filename =
     (case header of
        None \<Rightarrow> Inl TypeError
      | Some h \<Rightarrow>
          (case indexOf h (name column) of
             None \<Rightarrow>
               if \<not> truthyBool (optional column)
               then Inl (RequiredColumnMissing (name column) h filename)
               else extractColumnMapping rest header filename
           | Some colNum \<Rightarrow>
               (case extractColumnMapping rest header filename of
                  Inl e \<Rightarrow> Inl e
                | Inr out \<Rightarrow> Inr (indexed column colNum # out))))"

definition addDestinations :: "IndexedColumn list \<Rightarrow> IndexedColumn list" where
  "addDestinations cols = map (\<lambda>column. column\<lparr>destination := Some (destinationOrName column)\<rparr>) cols"

text \<open>\<^verbatim>\<open>row[column.number]\<close>: \<^verbatim>\<open>undefined\<close> past the end of the row.\<close>

definition cell :: "string list \<Rightarrow> nat \<Rightarrow> string option" where
  "cell row n = (if n < length row then Some (row ! n) else None)"

text \<open>
  The built-in \<^verbatim>\<open>Number\<close> applied to a cell. A cell that is \<^verbatim>\<open>undefined\<close> gives \<^verbatim>\<open>NaN\<close>.
  A string is stripped of white space at both ends; what is left must be empty or a numeric
  literal of the language (\<open>StrNumericLiteral\<close>: a signed decimal literal with optional
  fraction and exponent, \<^verbatim>\<open>Infinity\<close>, or an unsigned hexadecimal, octal or binary integer),
  and then gives the literal's value, which is 0 for the empty string; anything else gives
  \<^verbatim>\<open>NaN\<close>. This is written out for strings of ASCII characters; the result for a string
  with other characters, which depends on how they are decoded, is left to the environment.
\<close>

definition isWhiteSpace :: "char \<Rightarrow> bool" where
  "isWhiteSpace c = (c \<in> set [CHR 0x09, CHR 0x0A, CHR 0x0B, CHR 0x0C, CHR 0x0D, CHR '' ''])"

definition trim :: "string \<Rightarrow> string" where
  "trim s = rev (dropWhile isWhiteSpace (rev (dropWhile isWhiteSpace s)))"

definition isDigit :: "char \<Rightarrow> bool" where
  "isDigit c = (c \<in> set ''0123456789'')"

definition isSign :: "char \<Rightarrow> bool" where
  "isSign c = (c = CHR ''+'' \<or> c = CHR ''-'')"

definition DecimalDigits :: "string \<Rightarrow> bool" where
  "DecimalDigits s = (s \<noteq> [] \<and> list_all isDigit s)"

definition SignedInteger :: "string \<Rightarrow> bool" where
  "SignedInteger s =
     (case s of [] \<Rightarrow> False | c # r \<Rightarrow> if isSign c then DecimalDigits r else DecimalDigits s)"

definition ExponentPart_opt :: "string \<Rightarrow> bool" where
  "ExponentPart_opt s =
     (case s of [] \<Rightarrow> True | c # r \<Rightarrow> (c = CHR ''e'' \<or> c = CHR ''E'') \<and> SignedInteger r)"

definition StrUnsignedDecimalLiteral :: "string \<Rightarrow> bool" where
  "StrUnsignedDecimalLiteral s =
     (s = ''Infinity'' \<or>
      (let whole = takeWhile isDigit s; r = dropWhile isDigit s in
       case r of
         [] \<Rightarrow> whole \<noteq> []
       | c # r' \<Rightarrow>
           if c = CHR ''.'' then
             (let fraction = takeWhile isDigit r' in
              (whole \<noteq> [] \<or> fraction \<noteq> []) \<and> ExponentPart_opt (dropWhile isDigit r'))
           else whole \<noteq> [] \<and> ExponentPart_opt r))"

definition StrDecimalLiteral :: "string \<Rightarrow> bool" where
  "StrDecimalLiteral s =
     (case s of
        [] \<Rightarrow> False
      | c # r \<Rightarrow> if isSign c then StrUnsignedDecimalLiteral r else StrUnsignedDecimalLiteral s)"

definition NonDecimalIntegerLiteral :: "string \<Rightarrow> bool" where
  "NonDecimalIntegerLiteral s =
     (case s of
        z # x # ds \<Rightarrow>
          z = CHR ''0'' \<and> ds \<noteq> [] \<and>
          ((x \<in> set ''xX'' \<and> list_all (\<lambda>d. d \<in> set ''0123456789abcdefABCDEF'') ds) \<or>
           (x \<in> set ''oO'' \<and> list_all (\<lambda>d. d \<in> set ''01234567'') ds) \<or>
           (x \<in> set ''bB'' \<and> list_all (\<lambda>d. d \<in> set ''01'') ds))
      | _ \<Rightarrow> False)"

definition StrNumericLiteral :: "string \<Rightarrow> bool" where
  "StrNumericLiteral s = (StrDecimalLiteral s \<or> NonDecimalIntegerLiteral s)"

definition isAscii :: "string \<Rightarrow> bool" where
  "isAscii s = list_all (\<lambda>c. \<not> digit7 c) s"

definition Number :: "'n Env \<Rightarrow> string option \<Rightarrow> 'n jsnumber" where
  "Number env c =
     (case c of
        None \<Rightarrow> NaN
      | Some s \<Rightarrow>
          if isAscii s then
            (let t = trim s in
             if t = [] \<or> StrNumericLiteral t then Val (literalValue env t) else NaN)
          else NumberNonAscii env s)"

text \<open>The value one column stores, by the column's type.\<close>

definition convert :: "'n Env \<Rightarrow> ColumnType \<Rightarrow> string option \<Rightarrow> 'n jsvalue" where
  "convert env t c =
     (case t of
        STRING \<Rightarrow> (case c of None \<Rightarrow> Undefined | Some s \<Rightarrow> Str s)
      | NUMERIC \<Rightarrow> Num (Number env c)
      | BOOLEAN \<Rightarrow> Bool (c = Some ''1''))"

text \<open>The property key \<^verbatim>\<open>column.destination\<close>; an absent one would be the key "undefined".\<close>

definition key :: "IndexedColumn \<Rightarrow> string" where
  "key column = (case destination column of None \<Rightarrow> ''undefined'' | Some d \<Rightarrow> d)"

text \<open>
  The assignment \<^verbatim>\<open>o[column.destination] = value\<close> on an object that started as \<^verbatim>\<open>{}\<close>. An
  object is the map of its own fields. Under the key \<^verbatim>\<open>__proto__\<close> the assignment reaches
  the setter inherited from \<^verbatim>\<open>Object.prototype\<close>, which ignores a string, a number, a
  boolean and \<^verbatim>\<open>undefined\<close>: no field is stored. Every other key becomes an own field.
\<close>

definition store :: "'n Env \<Rightarrow> string list \<Rightarrow> IndexedColumn \<Rightarrow> 'n object \<Rightarrow> 'n object" where
  "store env row column obj =
     (if key column = ''__proto__'' then obj
      else obj(key column \<mapsto> convert env (type column) (cell row (number column))))"

definition rowToObject :: "'n Env \<Rightarrow> IndexedColumn list \<Rightarrow> string list \<Rightarrow> 'n object" where
  "rowToObject env cols row = fold (store env row) cols Map.empty"

text \<open>The variables the row callback closes over.\<close>

record 'n LoadState =
  isFirst :: bool
  mapping :: "IndexedColumn list option"
  values_v :: "'n object list"

definition callback ::
  "'n Env \<Rightarrow> string \<Rightarrow> CSVSpec \<Rightarrow> string list list \<Rightarrow> 'n LoadState \<Rightarrow> error + 'n LoadState" where
  "callback env filename spec rows st =
     (if isFirst st then
        (let header = (case rows of [] \<Rightarrow> None | h # _ \<Rightarrow> Some h) in
         case extractColumnMapping (columns spec) header (Some filename) of
           Inl e \<Rightarrow> Inl e
         | Inr cols \<Rightarrow>
             (let cols' = addDestinations cols in
              Inr \<lparr>isFirst = False, mapping = Some cols',
                   values_v = values_v st @ map (rowToObject env cols') (drop 1 rows)\<rparr>))
      else
        (case mapping st of
           None \<Rightarrow> if rows = [] then Inr st else Inl TypeError
         | Some cols \<Rightarrow> Inr (st\<lparr>values_v := values_v st @ map (rowToObject env cols) rows\<rparr>)))"

text \<open>
  Modelled from the spec: \<^verbatim>\<open>parseCSV\<close> of the module \<^verbatim>\<open>./csv-parser\<close> is not among the
  sources. It is taken to hand the rows of the file to the callback batch by batch, in file
  order, and to reject its promise with the exception of a callback that throws ("a missing
  required column fails the whole load").
\<close>

fun parseCSV :: "string list list list \<Rightarrow> (string list list \<Rightarrow> 's \<Rightarrow> error + 's) \<Rightarrow> 's \<Rightarrow> error + 's" where
  "parseCSV [] cb st = Inr st"
| "parseCSV (rows # later) cb st =
     (case cb rows st of Inl e \<Rightarrow> Inl e | Inr st' \<Rightarrow> parseCSV later cb st')"

definition loadCSV ::
  "'n Env \<Rightarrow> string \<Rightarrow> CSVSpec \<Rightarrow> io list \<times> (error, 'n object list) promise" where
  "loadCSV env filename spec =
     (case findSpecError env spec of
        Some e \<Rightarrow> ([], Rejected e)
      | None \<Rightarrow>
          if \<not> fileExists env filename then
            (if truthyBool (isOptional spec)
             then ([FileExists filename], Resolved [])
             else ([FileExists filename], Rejected (FileDoesNotExist filename)))
          else
            (case parseCSV (batches env filename) (callback env filename spec)
                    \<lparr>isFirst = True, mapping = None, values_v = []\<rparr> of
               Inl e \<Rightarrow> ([FileExists filename, ParseCSV filename], Rejected e)
             | Inr st \<Rightarrow> ([FileExists filename, ParseCSV filename], Resolved (values_v st))))"

text \<open>
  The columns of a specification that occur in a header, each with its position there and its
  destination filled in: what \<open>extractColumnMapping\<close> followed by \<open>addDestinations\<close>
  yields when no required column is missing (lemma \<open>extract_mapped\<close>).
\<close>

definition mapped :: "Column list \<Rightarrow> string list \<Rightarrow> IndexedColumn list" where
  "mapped cs h =
     addDestinations
       (map (\<lambda>c. indexed c (the (indexOf h (name c)))) (filter (\<lambda>c. name c \<in> set h) cs))"

text \<open>
  An example: a specification of four columns, and a world with two files: \<^verbatim>\<open>stops.txt\<close>,
  read in two batches, and \<^verbatim>\<open>flags.txt\<close>, whose header has a column \<^verbatim>\<open>__proto__\<close> and a
  column with the empty name. Its \<open>findDuplicate\<close> returns the first element that occurs
  twice; its numeric literals have the value 41 or 0.
\<close>

definition exampleSpec :: CSVSpec where
  "exampleSpec =
     \<lparr>columns =
        [\<lparr>name = ''stop_id'', type = STRING, optional = None, destination = Some ''id''\<rparr>,
         \<lparr>name = ''lat'', type = NUMERIC, optional = None, destination = None\<rparr>,
         \<lparr>name = ''wheelchair'', type = BOOLEAN, optional = Some True, destination = None\<rparr>,
         \<lparr>name = ''zone'', type = STRING, optional = Some True, destination = None\<rparr>],
      isOptional = None\<rparr>"

definition exampleEnv :: "int Env" where
  "exampleEnv =
     \<lparr>findDuplicate = (\<lambda>xs. List.find (\<lambda>x. 1 < count_list xs x) xs),
      fileExists = (\<lambda>f. f = ''stops.txt'' \<or> f = ''flags.txt''),
      literalValue = (\<lambda>s. if s = ''41'' then 41 else 0),
      NumberNonAscii = (\<lambda>s. NaN),
      batches = (\<lambda>f. if f = ''flags.txt''
                     then [[[''__proto__'', '''', ''count''], [''1'', ''1'', ''''],
                            [''yes'', ''yes'', ''n/a'']]]
                     else [[[''wheelchair'', ''note'', ''stop_id'', ''lat''],
                            [''1'', ''x'', ''s1'', ''41'']],
                           [[''TRUE'', ''y'', ''s2'', ''north'']]])\<rparr>"

section \<open>The OverlayMap component\<close>

text \<open>
  The component sits between its caller (the props), the Google map it creates and the canvas
  overlay. Numbers, data layers, features, the caller's handlers, map styles and error objects
  are opaque: the type variables \<open>'n\<close>, \<open>'d\<close>, \<open>'f\<close>, \<open>'h\<close>, \<open>'s\<close> and \<open>'e\<close>. The
  component's own \<open>LatLng\<close> and the map's are the same record here, so
  \<^verbatim>\<open>new LatLng(p.lat(), p.lng())\<close> copies the two coordinates.
\<close>

record 'n LatLng =
  lat :: 'n
  lng :: 'n

record 'n CenterZoomLevel =
  center :: "'n LatLng"
  zoomLevel :: 'n

record 'n BoxPlusLevel = "'n CenterZoomLevel" +
  northeast :: "'n LatLng"
  southwest :: "'n LatLng"

datatype ControlPosition =
    TOP_LEFT | TOP_CENTER | TOP_RIGHT | LEFT_CENTER | LEFT_TOP | LEFT_BOTTOM
  | RIGHT_TOP | RIGHT_CENTER | RIGHT_BOTTOM | BOTTOM_LEFT | BOTTOM_CENTER | BOTTOM_RIGHT

text \<open>
  The props, without \<^verbatim>\<open>style\<close> (used by \<^verbatim>\<open>render\<close> only). An optional handler is an
  option of the handler's identity; \<^verbatim>\<open>data\<close> is an array, as its type says.
\<close>

record ('n, 'd, 'h, 's) MapProps =
  view :: "'n CenterZoomLevel"
  data :: "'d list"
  onLoad :: "'h option"
  onClick :: "'h option"
  onMouseOverPointer :: "string option"
  onError :: 'h
  onBoundsChanged :: "'h option"
  mapStyles :: "'s option"
  minZoom :: "'n option"
  maxZoom :: "'n option"
  controlPosition :: "ControlPosition option"
  hideControls :: "bool option"

record 'n MouseEvent =
  latLng :: "'n LatLng"

text \<open>What the getters of the map return at the moment of a \<^verbatim>\<open>bounds_changed\<close> event.\<close>

record 'n Viewport =
  getNorthEast :: "'n LatLng"
  getSouthWest :: "'n LatLng"
  getCenter :: "'n LatLng"
  getZoom :: 'n

text \<open>
  The calls the component makes on the overlay, on the map and on the caller's handlers.
  \<open>Map_new\<close> carries whether the controls are shown, their position, the centre, the zoom
  and the zoom bounds; \<open>Map_setCursor\<close> is \<^verbatim>\<open>setOptions({draggableCursor})\<close>,
  \<open>Map_setCustomType\<close> the two calls that install the styled map type, \<open>Map_setControls\<close>
  the \<^verbatim>\<open>setOptions\<close> call of \<^verbatim>\<open>componentDidUpdate\<close>.
\<close>

datatype ('n, 'd, 'f, 'h, 's, 'e) call =
    Overlay_new
  | Overlay_setMap
  | Overlay_updateData "'d list"
  | Overlay_draw
  | Overlay_hitTest "'n LatLng"
  | Map_new bool ControlPosition "'n LatLng" 'n "'n option" "'n option"
  | Map_setCursor string
  | Map_setCustomType 's
  | Map_setCenter "'n LatLng"
  | Map_setZoom 'n
  | Map_setControls bool ControlPosition
  | Call_onLoad 'h
  | Call_onClick 'h "'n MouseEvent" "nat option" "'f option"
  | Call_onError 'h 'e
  | Call_onBoundsChanged 'h "'n BoxPlusLevel"
  | SetState

text \<open>
  The listeners that \<^verbatim>\<open>componentDidMount\<close> registers on the map. A registration records the
  event's name, whether it was made with \<^verbatim>\<open>addListenerOnce\<close>, and the wait of the
  \<^verbatim>\<open>_.throttle\<close> wrapper, if any. The mouse-move listener keeps the pointer it was created
  with.
\<close>

datatype Listener = IdleListener | ClickListener | MouseMoveListener string | BoundsChangedListener

record Registration =
  event :: string
  once :: bool
  throttle :: "nat option"
  listener :: Listener

text \<open>
  Modelled from the spec: the class \<^verbatim>\<open>CanvasOverlay\<close> of the module
  \<^verbatim>\<open>./canvas-overlay\<close> is not among the sources. Of the overlay, the model keeps the sink
  it was constructed with ("construct(onFault: (Fault) -> void)"). A sink is any function
  that, from the props the component has when it is called and from the fault, makes calls.
\<close>

record ('n, 'd, 'f, 'h, 's, 'e) CanvasOverlay =
  onFault :: "('n, 'd, 'h, 's) MapProps \<Rightarrow> 'e \<Rightarrow> ('n, 'd, 'f, 'h, 's, 'e) call list"

text \<open>
  The component: its current props, its fields \<^verbatim>\<open>mapIsReady\<close> and \<^verbatim>\<open>overlay\<close>, the
  listeners registered on its map, and the calls it has made so far, oldest first. The calls
  that the fault sink makes are kept in a list of their own, \<open>sinkCalls\<close>: the overlay runs
  the sink when it meets a fault, which may be in the middle of one of its methods, between
  two calls of a listener, and the model does not fix how the two lists interleave. The field
  \<^verbatim>\<open>mapOffsetLeft\<close>, \<^verbatim>\<open>render\<close>, \<^verbatim>\<open>getChildContext\<close> and
  \<^verbatim>\<open>shouldComponentUpdate\<close> are not modelled.
\<close>

record ('n, 'd, 'f, 'h, 's, 'e) OverlayMap =
  props :: "('n, 'd, 'h, 's) MapProps"
  mapIsReady :: bool
  overlay :: "('n, 'd, 'f, 'h, 's, 'e) CanvasOverlay"
  listeners :: "Registration list"
  calls :: "('n, 'd, 'f, 'h, 's, 'e) call list"
  sinkCalls :: "('n, 'd, 'f, 'h, 's, 'e) call list"

datatype 'n event = Idle | Click "'n MouseEvent" | MouseMove "'n MouseEvent" | BoundsChanged "'n Viewport"

text \<open>\<^verbatim>\<open>utils.shallowEqual\<close> and \<^verbatim>\<open>utils.zip\<close>, which are not among the sources.\<close>

record 'd Utils =
  shallowEqual :: "'d \<Rightarrow> 'd \<Rightarrow> bool"
  zip_utils :: "'d list \<Rightarrow> 'd list \<Rightarrow> ('d \<times> 'd) list"

definition DEFAULT_DRAGGABLE_CURSOR :: string where
  "DEFAULT_DRAGGABLE_CURSOR = ''default''"

text \<open>Making calls: they are appended to the component's record of calls.\<close>

definition emit ::
  "('n, 'd, 'f, 'h, 's, 'e) call list \<Rightarrow> ('n, 'd, 'f, 'h, 's, 'e) OverlayMap \<Rightarrow>
     ('n, 'd, 'f, 'h, 's, 'e) OverlayMap" where
  "emit cs this = this\<lparr>calls := calls this @ cs\<rparr>"

text \<open>
  The constructor: \<^verbatim>\<open>this.overlay = new CanvasOverlay(error => this.props.onError(error))\<close>.
  The closure reads \<^verbatim>\<open>this.props\<close> when it is called, not when it is made.
\<close>

definition constructor :: "('n, 'd, 'h, 's) MapProps \<Rightarrow> ('n, 'd, 'f, 'h, 's, 'e) OverlayMap" where
  "constructor p =
     \<lparr>props = p, mapIsReady = False,
      overlay = \<lparr>onFault = (\<lambda>currentProps error. [Call_onError (onError currentProps) error])\<rparr>,
      listeners = [],
      calls = [Overlay_new],
      sinkCalls = []\<rparr>"

text \<open>
  Modelled from the spec: how the overlay reports a fault is code of \<^verbatim>\<open>CanvasOverlay\<close>,
  which is not among the sources. By the spec, every fault is "delivered through the single
  injected fault sink rather than raised to the caller": the overlay calls the sink it was
  constructed with, whatever that sink does, and nothing is thrown.
\<close>

definition reportFault ::
  "('n, 'd, 'f, 'h, 's, 'e) OverlayMap \<Rightarrow> 'e \<Rightarrow> ('n, 'd, 'f, 'h, 's, 'e) OverlayMap" where
  "reportFault this fault =
     this\<lparr>sinkCalls := sinkCalls this @ onFault (overlay this) (props this) fault\<rparr>"

text \<open>\<^verbatim>\<open>this.props.controlPosition || google.maps.ControlPosition.TOP_RIGHT\<close>.\<close>

definition positionOrDefault :: "ControlPosition option \<Rightarrow> ControlPosition" where
  "positionOrDefault c = (case c of None \<Rightarrow> TOP_RIGHT | Some position \<Rightarrow> position)"

text \<open>
  \<^verbatim>\<open>x && f(x)\<close> for an \<open>x\<close> that is \<^verbatim>\<open>null\<close> or an array (an array is truthy, whatever
  it holds).
\<close>

definition andAlso :: "'a option \<Rightarrow> ('a \<Rightarrow> 'b) \<Rightarrow> 'b option" where
  "andAlso x f = (case x of None \<Rightarrow> None | Some v \<Rightarrow> Some (f v))"

definition idleListener ::
  "('n, 'd, 'f, 'h, 's, 'e) OverlayMap \<Rightarrow> ('n, 'd, 'f, 'h, 's, 'e) OverlayMap" where
  "idleListener this =
     emit (case onLoad (props this) of None \<Rightarrow> [] | Some h \<Rightarrow> [Call_onLoad h])
       (this\<lparr>mapIsReady := True\<rparr>)"

text \<open>
  The listeners that ask the overlay take its answer as the function \<open>hitTest\<close>: a layer index
  and a feature, or \<^verbatim>\<open>null\<close>.
\<close>

definition clickListener ::
  "('n LatLng \<Rightarrow> (nat \<times> 'f) option) \<Rightarrow> ('n, 'd, 'f, 'h, 's, 'e) OverlayMap \<Rightarrow> 'n MouseEvent \<Rightarrow>
     ('n, 'd, 'f, 'h, 's, 'e) OverlayMap" where
  "clickListener hitTest this ev =
     (case onClick (props this) of
        None \<Rightarrow> this
      | Some h \<Rightarrow>
          (let layerFeature = hitTest (latLng ev) in
           emit [Overlay_hitTest (latLng ev),
                 Call_onClick h ev (andAlso layerFeature fst) (andAlso layerFeature snd)] this))"

definition mouseMoveListener ::
  "('n LatLng \<Rightarrow> (nat \<times> 'f) option) \<Rightarrow> string \<Rightarrow> ('n, 'd, 'f, 'h, 's, 'e) OverlayMap \<Rightarrow>
     'n MouseEvent \<Rightarrow> ('n, 'd, 'f, 'h, 's, 'e) OverlayMap" where
  "mouseMoveListener hitTest pointer this ev =
     (let draggableCursor =
        (if hitTest (latLng ev) \<noteq> None then pointer else DEFAULT_DRAGGABLE_CURSOR)
      in emit [Overlay_hitTest (latLng ev), Map_setCursor draggableCursor] this)"

definition boundsChangedListener ::
  "('n, 'd, 'f, 'h, 's, 'e) OverlayMap \<Rightarrow> 'n Viewport \<Rightarrow> ('n, 'd, 'f, 'h, 's, 'e) OverlayMap" where
  "boundsChangedListener this vp =
     (let this1 = emit [Overlay_draw] this;
          ne = getNorthEast vp;
          sw = getSouthWest vp;
          c = getCenter vp;
          box = \<lparr>center = \<lparr>lat = lat c, lng = lng c\<rparr>, zoomLevel = getZoom vp,
                 northeast = \<lparr>lat = lat ne, lng = lng ne\<rparr>,
                 southwest = \<lparr>lat = lat sw, lng = lng sw\<rparr>\<rparr>
      in case onBoundsChanged (props this1) of
           None \<Rightarrow> this1
         | Some h \<Rightarrow> emit [Call_onBoundsChanged h box] this1)"

text \<open>
  \<^verbatim>\<open>componentDidMount\<close>: the map is created and configured, the four listeners are registered
  (the mouse-move one only for a non-empty pointer, and throttled to 100 ms), the overlay is
  attached and given the data (the guard \<^verbatim>\<open>if (this.props.data)\<close> holds for every array).
\<close>

definition componentDidMount ::
  "('n, 'd, 'f, 'h, 's, 'e) OverlayMap \<Rightarrow> ('n, 'd, 'f, 'h, 's, 'e) OverlayMap" where
  "componentDidMount this =
     (let p = props this;
          position = positionOrDefault (controlPosition p);
          this1 = emit ([Map_new (\<not> truthyBool (hideControls p)) position (center (view p))
                           (zoomLevel (view p)) (maxZoom p) (minZoom p),
                         Map_setCursor DEFAULT_DRAGGABLE_CURSOR] @
                        (case mapStyles p of None \<Rightarrow> [] | Some st \<Rightarrow> [Map_setCustomType st])) this;
          this2 = this1\<lparr>listeners :=
                    [\<lparr>event = ''idle'', once = True, throttle = None, listener = IdleListener\<rparr>,
                     \<lparr>event = ''click'', once = False, throttle = None, listener = ClickListener\<rparr>] @
                    (case onMouseOverPointer p of
                       None \<Rightarrow> []
                     | Some pointer \<Rightarrow>
                         if pointer \<noteq> [] then
                           [\<lparr>event = ''mousemove'', once = False, throttle = Some 100,
                             listener = MouseMoveListener pointer\<rparr>]
                         else []) @
                    [\<lparr>event = ''bounds_changed'', once = False, throttle = None,
                      listener = BoundsChangedListener\<rparr>]\<rparr>
      in emit [Overlay_setMap, Overlay_updateData (data p), SetState] this2)"

text \<open>The loop of \<^verbatim>\<open>didDataChange\<close> over the zipped pairs.\<close>

fun anyChanged :: "'d Utils \<Rightarrow> ('d \<times> 'd) list \<Rightarrow> bool" where
  "anyChanged u [] = False"
| "anyChanged u ((oldEl, newEl) # rest) =
     (if \<not> shallowEqual u oldEl newEl then True else anyChanged u rest)"

definition didDataChange :: "'d Utils \<Rightarrow> 'd list \<Rightarrow> 'd list \<Rightarrow> bool" where
  "didDataChange u prevData data_v =
     (if length prevData \<noteq> length data_v then True
      else anyChanged u (zip_utils u prevData data_v))"

text \<open>
  \<^verbatim>\<open>componentDidUpdate\<close>, run with the new props in place. It passes the new data as the
  first argument of \<open>didDataChange\<close> and the previous data as the second, as the source does.
\<close>

definition componentDidUpdate ::
  "'d Utils \<Rightarrow> ('n, 'd, 'f, 'h, 's, 'e) OverlayMap \<Rightarrow> ('n, 'd, 'h, 's) MapProps \<Rightarrow>
     ('n, 'd, 'f, 'h, 's, 'e) OverlayMap" where
  "componentDidUpdate u this prevProps =
     (let this1 = (if didDataChange u (data (props this)) (data prevProps)
                   then emit [Overlay_updateData (data (props this))] this else this);
          this2 = (if view (props this1) \<noteq> view prevProps
                   then emit [Map_setCenter (center (view (props this1))),
                              Map_setZoom (zoomLevel (view (props this1)))] this1
                   else this1)
      in if controlPosition (props this2) \<noteq> controlPosition prevProps \<or>
            hideControls (props this2) \<noteq> hideControls prevProps
         then emit [Map_setControls (\<not> truthyBool (hideControls (props this2)))
                      (positionOrDefault (controlPosition (props this2)))] this2
         else this2)"

text \<open>
  The map delivering an event: every listener registered under the event's name runs once, at
  once, in the order of registration; a listener registered with \<^verbatim>\<open>addListenerOnce\<close> is
  then removed. When a listener under that name is throttled, whether it runs at that moment
  depends on the clock: the delivery has no result here (\<open>None\<close>), and the runs of a
  throttled listener are steps of their own (rule \<open>throttled\<close> of \<open>mounted\<close> below).
\<close>

definition eventName :: "'n event \<Rightarrow> string" where
  "eventName ev =
     (case ev of Idle \<Rightarrow> ''idle'' | Click _ \<Rightarrow> ''click'' | MouseMove _ \<Rightarrow> ''mousemove''
      | BoundsChanged _ \<Rightarrow> ''bounds_changed'')"

fun runListener ::
  "('n LatLng \<Rightarrow> (nat \<times> 'f) option) \<Rightarrow> Listener \<Rightarrow> 'n event \<Rightarrow>
     ('n, 'd, 'f, 'h, 's, 'e) OverlayMap \<Rightarrow> ('n, 'd, 'f, 'h, 's, 'e) OverlayMap" where
  "runListener hitTest IdleListener ev this = idleListener this"
| "runListener hitTest ClickListener (Click e) this = clickListener hitTest this e"
| "runListener hitTest (MouseMoveListener pointer) (MouseMove e) this =
     mouseMoveListener hitTest pointer this e"
| "runListener hitTest BoundsChangedListener (BoundsChanged vp) this = boundsChangedListener this vp"
| "runListener hitTest l ev this = this"

fun deliver ::
  "('n LatLng \<Rightarrow> (nat \<times> 'f) option) \<Rightarrow> 'n event \<Rightarrow> Registration list \<Rightarrow>
     ('n, 'd, 'f, 'h, 's, 'e) OverlayMap \<Rightarrow> ('n, 'd, 'f, 'h, 's, 'e) OverlayMap option" where
  "deliver hitTest ev [] this = Some this"
| "deliver hitTest ev (r # rs) this =
     (if event r \<noteq> eventName ev then deliver hitTest ev rs this
      else case throttle r of
             Some wait \<Rightarrow> None
           | None \<Rightarrow> deliver hitTest ev rs (runListener hitTest (listener r) ev this))"

definition fire ::
  "('n LatLng \<Rightarrow> (nat \<times> 'f) option) \<Rightarrow> ('n, 'd, 'f, 'h, 's, 'e) OverlayMap \<Rightarrow> 'n event \<Rightarrow>
     ('n, 'd, 'f, 'h, 's, 'e) OverlayMap option" where
  "fire hitTest this ev =
     map_option
       (\<lambda>this'. this'\<lparr>listeners :=
                   filter (\<lambda>r. \<not> (once r \<and> event r = eventName ev)) (listeners this')\<rparr>)
       (deliver hitTest ev (listeners this) this)"

fun fireAll ::
  "('n LatLng \<Rightarrow> (nat \<times> 'f) option) \<Rightarrow> ('n, 'd, 'f, 'h, 's, 'e) OverlayMap \<Rightarrow> 'n event list \<Rightarrow>
     ('n, 'd, 'f, 'h, 's, 'e) OverlayMap option" where
  "fireAll hitTest this [] = Some this"
| "fireAll hitTest this (ev # evs) =
     (case fire hitTest this ev of None \<Rightarrow> None | Some this' \<Rightarrow> fireAll hitTest this' evs)"

text \<open>
  The states of a mounted component: constructed and mounted with some props, then given new
  props, updated, sent events by the map and faults by the overlay, in any order. A throttled
  listener (the one for mouse moves) runs when its throttle lets it, at once or after the
  wait, with an event it was given: at any moment, as far as the other steps can tell.
\<close>

inductive mounted :: "('n, 'd, 'f, 'h, 's, 'e) OverlayMap \<Rightarrow> bool" where
  mount: "mounted (componentDidMount (constructor p))"
| newProps: "mounted this \<Longrightarrow> mounted (this\<lparr>props := p\<rparr>)"
| didUpdate: "mounted this \<Longrightarrow> mounted (componentDidUpdate u this prevProps)"
| delivered: "mounted this \<Longrightarrow> fire hitTest this ev = Some this' \<Longrightarrow> mounted this'"
| fault: "mounted this \<Longrightarrow> mounted (reportFault this e)"
| throttled: "mounted this \<Longrightarrow> r \<in> set (listeners this) \<Longrightarrow> throttle r = Some wait \<Longrightarrow>
     mounted (runListener hitTest (listener r) ev this)"

text \<open>An example: props with three handlers, and the component mounted with them.\<close>

definition exampleProps :: "(int, nat, string, string) MapProps" where
  "exampleProps =
     \<lparr>view = \<lparr>center = \<lparr>lat = 40, lng = -74\<rparr>, zoomLevel = 12\<rparr>,
      data = [1, 2],
      onLoad = None,
      onClick = Some ''handleClick'',
      onMouseOverPointer = Some ''pointer'',
      onError = ''handleError'',
      onBoundsChanged = Some ''handleBounds'',
      mapStyles = None,
      minZoom = None,
      maxZoom = None,
      controlPosition = None,
      hideControls = None\<rparr>"

definition exampleMap :: "(int, nat, string, string, string, string) OverlayMap" where
  "exampleMap = componentDidMount (constructor exampleProps)"

section \<open>Properties of the CSV loader\<close>

lemma indexOf_None: "indexOf xs x = None \<longleftrightarrow> x \<notin> set xs"
  by (induction xs) auto

lemma extract_missing:
  assumes "c \<in> set cs" "\<not> truthyBool (optional c)" "name c \<notin> set h"
  shows "\<exists>n. n \<notin> set h \<and> extractColumnMapping cs (Some h) fn = Inl (RequiredColumnMissing n h fn)"
  using assms
proof (induction cs)
  case Nil
  then show ?case by simp
next
  case (Cons a cs)
  show ?case
  proof (cases "indexOf h (name a)")
    case None
    then have na: "name a \<notin> set h" by (simp add: indexOf_None)
    show ?thesis
    proof (cases "truthyBool (optional a)")
      case True
      with Cons.prems have "c \<in> set cs" by auto
      from Cons.IH[OF this Cons.prems(2,3)] None True show ?thesis by simp
    next
      case False
      with None na show ?thesis by auto
    qed
  next
    case (Some k)
    then have "name a \<in> set h" using indexOf_None[of h "name a"] by auto
    with Cons.prems have "c \<in> set cs" by auto
    from Cons.IH[OF this Cons.prems(2,3)] Some show ?thesis by auto
  qed
qed

lemma extract_Inr:
  "extractColumnMapping cs (Some h) fn = Inr out \<Longrightarrow>
     out = map (\<lambda>c. indexed c (the (indexOf h (name c)))) (filter (\<lambda>c. name c \<in> set h) cs)"
proof (induction cs arbitrary: out)
  case Nil
  then show ?case by simp
next
  case (Cons a cs)
  show ?case
  proof (cases "indexOf h (name a)")
    case None
    then have na: "name a \<notin> set h" by (simp add: indexOf_None)
    from Cons.prems None have "extractColumnMapping cs (Some h) fn = Inr out"
      by (simp split: if_splits)
    from Cons.IH[OF this] na show ?thesis by simp
  next
    case (Some k)
    then have ia: "name a \<in> set h" using indexOf_None[of h "name a"] by auto
    from Cons.prems Some obtain out' where o: "extractColumnMapping cs (Some h) fn = Inr out'"
      and oo: "out = indexed a k # out'"
      by (auto split: sum.splits)
    from Cons.IH[OF o] oo ia Some show ?thesis by simp
  qed
qed


lemma parseCSV_later:
  "parseCSV later (callback env filename spec) \<lparr>isFirst = False, mapping = Some cols, values_v = vs\<rparr>
     = Inr \<lparr>isFirst = False, mapping = Some cols,
            values_v = vs @ map (rowToObject env cols) (concat later)\<rparr>"
  by (induction later arbitrary: vs) (simp_all add: callback_def)

lemma parseCSV_first:
  assumes "extractColumnMapping (columns spec) (Some header) (Some filename) = Inr cols"
  shows "parseCSV ((header # rows) # later) (callback env filename spec)
           \<lparr>isFirst = True, mapping = None, values_v = []\<rparr>
     = Inr \<lparr>isFirst = False, mapping = Some (addDestinations cols),
            values_v = map (rowToObject env (addDestinations cols)) (rows @ concat later)\<rparr>"
  using assms by (simp add: callback_def Let_def parseCSV_later)

lemma parseCSV_first_fail:
  assumes "extractColumnMapping (columns spec) (Some header) (Some filename) = Inl e"
  shows "parseCSV ((header # rows) # later) (callback env filename spec)
           \<lparr>isFirst = True, mapping = None, values_v = []\<rparr> = Inl e"
  using assms by (simp add: callback_def Let_def)

lemma extract_no_header:
  "extractColumnMapping cs None fn = Inr out \<Longrightarrow> cs = [] \<and> out = []"
  by (cases cs) auto

lemma fold_store_origin:
  "fold (store env row) cols m f = Some v \<Longrightarrow>
     m f = Some v \<or>
     (\<exists>col \<in> set cols. key col = f \<and> v = convert env (type col) (cell row (number col)))"
proof (induction cols arbitrary: m)
  case Nil
  then show ?case by simp
next
  case (Cons a cols)
  from Cons.prems have "fold (store env row) cols (store env row a m) f = Some v" by simp
  from Cons.IH[OF this] show ?case
    by (auto simp: store_def split: if_splits)
qed

lemma fold_store_other:
  "k \<notin> key ` set cols \<Longrightarrow> fold (store env row) cols m k = m k"
  by (induction cols arbitrary: m) (auto simp: store_def)

lemma fold_store_last:
  assumes "key col \<noteq> ''__proto__''" and "key col \<notin> key ` set ys"
  shows "fold (store env row) (xs @ col # ys) m (key col) =
           Some (convert env (type col) (cell row (number col)))"
proof -
  have "fold (store env row) (xs @ col # ys) m (key col) =
          store env row col (fold (store env row) xs m) (key col)"
    using assms(2) by (simp add: fold_store_other)
  also have "\<dots> = Some (convert env (type col) (cell row (number col)))"
    using assms(1) by (simp add: store_def)
  finally show ?thesis .
qed

lemma fold_store_proto: "fold (store env row) cols m ''__proto__'' = m ''__proto__''"
  by (induction cols arbitrary: m) (simp_all add: store_def)

lemma destinationOrName_indexed [simp]: "destinationOrName (indexed c k) = destinationOrName c"
  by (simp add: destinationOrName_def indexed_def split: option.split)

lemma map_key_mapped:
  "map key (mapped cs h) = map destinationOrName (filter (\<lambda>c. name c \<in> set h) cs)"
  by (simp add: mapped_def addDestinations_def key_def comp_def)

lemma mapped_origin:
  assumes "col \<in> set (mapped cs h)"
  shows "\<exists>c \<in> set cs. key col = destinationOrName c \<and> type col = type c \<and>
           indexOf h (name c) = Some (number col)"
proof -
  from assms obtain c where c: "c \<in> set cs" "name c \<in> set h"
    and col: "col = (indexed c (the (indexOf h (name c))))\<lparr>destination := Some (destinationOrName c)\<rparr>"
    by (auto simp: mapped_def addDestinations_def)
  from c(2) obtain k where k: "indexOf h (name c) = Some k"
    using indexOf_None[of h "name c"] by auto
  with col have "key col = destinationOrName c" "type col = type c" "number col = k"
    by (simp_all add: key_def indexed_def)
  with c(1) k show ?thesis by auto
qed

lemma mapped_member:
  assumes "c \<in> set cs" "indexOf h (name c) = Some n"
  shows "\<exists>col \<in> set (mapped cs h). key col = destinationOrName c \<and> type col = type c \<and> number col = n"
proof -
  from assms(2) have "name c \<in> set h" using indexOf_None[of h "name c"] by auto
  with assms(1) have "(indexed c n)\<lparr>destination := Some (destinationOrName c)\<rparr> \<in> set (mapped cs h)"
    using assms(2) by (force simp: mapped_def addDestinations_def image_iff)
  moreover have "key ((indexed c n)\<lparr>destination := Some (destinationOrName c)\<rparr>) = destinationOrName c"
    by (simp add: key_def)
  moreover have "type ((indexed c n)\<lparr>destination := Some (destinationOrName c)\<rparr>) = type c"
    "number ((indexed c n)\<lparr>destination := Some (destinationOrName c)\<rparr>) = n"
    by (simp_all add: indexed_def)
  ultimately show ?thesis by blast
qed

lemma extract_mapped:
  "extractColumnMapping cs (Some h) fn = Inr out \<Longrightarrow> addDestinations out = mapped cs h"
  using extract_Inr[of cs h fn out] by (simp add: mapped_def)

lemma loadCSV_parsed:
  assumes "findSpecError env spec = None" "fileExists env filename"
    and "batches env filename = (header # rows) # later"
  shows "loadCSV env filename spec =
     ([FileExists filename, ParseCSV filename],
      case extractColumnMapping (columns spec) (Some header) (Some filename) of
        Inl e \<Rightarrow> Rejected e
      | Inr cols \<Rightarrow> Resolved (map (rowToObject env (mapped (columns spec) header)) (rows @ concat later)))"
proof (cases "extractColumnMapping (columns spec) (Some header) (Some filename)")
  case (Inl e)
  with assms show ?thesis
    by (simp add: loadCSV_def parseCSV_first_fail[OF Inl] del: parseCSV.simps)
next
  case (Inr cols)
  with assms show ?thesis
    by (simp add: loadCSV_def parseCSV_first[OF Inr] extract_mapped[OF Inr] del: parseCSV.simps)
qed

lemma loadCSV_spec_error:
  "findSpecError env spec = Some e \<Longrightarrow> loadCSV env filename spec = ([], Rejected e)"
  by (simp add: loadCSV_def)

text \<open>
  Claim C1. The file exists and its first batch starts with a header row. If some column of the
  specification is not marked optional (\<open>optional\<close> absent or false) and its name is not in
  the header, the load is rejected and yields no records: with the duplicate-field error when
  the specification itself is refused, and otherwise with the missing-column error of a required
  column that the header lacks, whatever rows follow.
\<close>

theorem loadCSV_missing_required_column:
  assumes "fileExists env filename"
    and "batches env filename = (header # rows) # later"
    and "c \<in> set (columns spec)" and "optional c \<noteq> Some True" and "name c \<notin> set header"
  shows "(\<exists>d. loadCSV env filename spec = ([], Rejected (DuplicateField d))) \<or>
         (\<exists>n. n \<notin> set header \<and> loadCSV env filename spec =
            ([FileExists filename, ParseCSV filename],
             Rejected (RequiredColumnMissing n header (Some filename))))"
proof (cases "findSpecError env spec")
  case None
  from assms(4) have "\<not> truthyBool (optional c)" by (simp add: truthyBool_def)
  from extract_missing[OF assms(3) this assms(5)] obtain n where
    n: "n \<notin> set header"
    "extractColumnMapping (columns spec) (Some header) (Some filename)
       = Inl (RequiredColumnMissing n header (Some filename))"
    by blast
  from loadCSV_parsed[OF None assms(1,2)] n show ?thesis by simp
next
  case (Some e)
  then obtain d where "e = DuplicateField d"
    by (auto simp: findSpecError_def Let_def split: if_splits)
  with loadCSV_spec_error[OF Some] show ?thesis by simp
qed

theorem loadCSV_missing_required_column_witness:
  "fileExists exampleEnv ''stops.txt'' \<and>
   batches exampleEnv ''stops.txt'' =
     ([''wheelchair'', ''note'', ''stop_id'', ''lat''] # [[''1'', ''x'', ''s1'', ''41'']]) #
       [[[''TRUE'', ''y'', ''s2'', ''north'']]] \<and>
   \<lparr>name = ''lon'', type = NUMERIC, optional = Some False, destination = None\<rparr>
     \<in> set (columns \<lparr>columns =
         [\<lparr>name = ''lat'', type = NUMERIC, optional = None, destination = None\<rparr>,
          \<lparr>name = ''lon'', type = NUMERIC, optional = Some False, destination = None\<rparr>],
        isOptional = Some True\<rparr>) \<and>
   ''lon'' \<notin> set [''wheelchair'', ''note'', ''stop_id'', ''lat''] \<and>
   loadCSV exampleEnv ''stops.txt''
     \<lparr>columns =
         [\<lparr>name = ''lat'', type = NUMERIC, optional = None, destination = None\<rparr>,
          \<lparr>name = ''lon'', type = NUMERIC, optional = Some False, destination = None\<rparr>],
        isOptional = Some True\<rparr> =
     ([FileExists ''stops.txt'', ParseCSV ''stops.txt''],
      Rejected (RequiredColumnMissing ''lon'' [''wheelchair'', ''note'', ''stop_id'', ''lat'']
                  (Some ''stops.txt'')))"
proof -
  let ?c = "\<lparr>name = ''lon'', type = NUMERIC, optional = Some False, destination = None\<rparr>"
  let ?h = "[''wheelchair'', ''note'', ''stop_id'', ''lat'']"
  let ?spec = "\<lparr>columns =
         [\<lparr>name = ''lat'', type = NUMERIC, optional = None, destination = None\<rparr>, ?c],
        isOptional = Some True\<rparr>"
  have h1: "fileExists exampleEnv ''stops.txt''" by (simp add: exampleEnv_def)
  have h2: "batches exampleEnv ''stops.txt'' =
     (?h # [[''1'', ''x'', ''s1'', ''41'']]) # [[[''TRUE'', ''y'', ''s2'', ''north'']]]"
    by (simp add: exampleEnv_def)
  have h3: "?c \<in> set (columns ?spec)" by simp
  have h4: "optional ?c \<noteq> Some True" by simp
  have h5: "name ?c \<notin> set ?h" by simp
  have ok: "findSpecError exampleEnv ?spec = None"
    by (simp add: findSpecError_def exampleEnv_def destinationOrName_def truthyString_def)
  have e: "extractColumnMapping (columns ?spec) (Some ?h) (Some ''stops.txt'')
             = Inl (RequiredColumnMissing ''lon'' ?h (Some ''stops.txt''))"
    by (simp add: truthyBool_def)
  from loadCSV_missing_required_column[OF h1 h2 h3 h4 h5] loadCSV_parsed[OF ok h1 h2] e h1 h2
  show ?thesis by simp
qed

text \<open>
  Claim C3. The specification has no error and the file does not exist. Then the loader asks
  the file system once, whether the file exists, and never parses the file; it resolves to the
  empty list when \<open>isOptional\<close> is true, and rejects with the missing-file error when
  \<open>isOptional\<close> is false or absent.
\<close>

theorem loadCSV_missing_file:
  assumes "findSpecError env spec = None" and "\<not> fileExists env filename"
  shows "loadCSV env filename spec =
           ([FileExists filename],
            if isOptional spec = Some True then Resolved [] else Rejected (FileDoesNotExist filename))"
  using assms by (simp add: loadCSV_def truthyBool_def)

theorem loadCSV_missing_file_witness:
  "findSpecError exampleEnv exampleSpec = None \<and> \<not> fileExists exampleEnv ''routes.txt'' \<and>
   isOptional exampleSpec = None \<and>
   loadCSV exampleEnv ''routes.txt'' exampleSpec =
     ([FileExists ''routes.txt''], Rejected (FileDoesNotExist ''routes.txt'')) \<and>
   findSpecError exampleEnv (exampleSpec\<lparr>isOptional := Some True\<rparr>) = None \<and>
   loadCSV exampleEnv ''routes.txt'' (exampleSpec\<lparr>isOptional := Some True\<rparr>) =
     ([FileExists ''routes.txt''], Resolved [])"
proof -
  have h1: "findSpecError exampleEnv exampleSpec = None"
    by (simp add: findSpecError_def exampleEnv_def exampleSpec_def destinationOrName_def
          truthyString_def)
  have h1': "findSpecError exampleEnv (exampleSpec\<lparr>isOptional := Some True\<rparr>) = None"
    by (simp add: findSpecError_def exampleEnv_def exampleSpec_def destinationOrName_def
          truthyString_def)
  have h2: "\<not> fileExists exampleEnv ''routes.txt''" by (simp add: exampleEnv_def)
  have h3: "isOptional exampleSpec = None" by (simp add: exampleSpec_def)
  from loadCSV_missing_file[OF h1 h2] loadCSV_missing_file[OF h1' h2] h1 h1' h2 h3
  show ?thesis by simp
qed

lemma mapped_append: "mapped (xs @ ys) h = mapped xs h @ mapped ys h"
  by (simp add: mapped_def addDestinations_def)

lemma mapped_Cons_found:
  "indexOf h (name c) = Some n \<Longrightarrow>
     mapped (c # ys) h = (indexed c n)\<lparr>destination := Some (destinationOrName c)\<rparr> # mapped ys h"
  using indexOf_None[of h "name c"] by (auto simp: mapped_def addDestinations_def)

lemma rowToObject_field:
  assumes "cs = before @ c # after"
    and "list_all (\<lambda>c'. destinationOrName c' \<noteq> destinationOrName c \<or> name c' \<notin> set h) after"
    and "destinationOrName c \<noteq> ''__proto__''"
    and "indexOf h (name c) = Some n"
  shows "rowToObject env (mapped cs h) row (destinationOrName c) = Some (convert env (type c) (cell row n))"
proof -
  let ?col = "(indexed c n)\<lparr>destination := Some (destinationOrName c)\<rparr>"
  have k: "key ?col = destinationOrName c" by (simp add: key_def)
  have t: "type ?col = type c" "number ?col = n" by (simp_all add: indexed_def)
  have m: "mapped cs h = mapped before h @ ?col # mapped after h"
    unfolding assms(1) mapped_append by (simp add: mapped_Cons_found[OF assms(4)])
  have "set (map key (mapped after h)) =
          destinationOrName ` {c' \<in> set after. name c' \<in> set h}"
    unfolding map_key_mapped by auto
  with assms(2) have "destinationOrName c \<notin> key ` set (mapped after h)"
    by (auto simp: list_all_iff)
  with k have n: "key ?col \<notin> key ` set (mapped after h)" by simp
  from assms(3) k have p: "key ?col \<noteq> ''__proto__''" by simp
  from fold_store_last[OF p n, of env row "mapped before h" Map.empty]
  show ?thesis unfolding rowToObject_def m k t .
qed

lemma rowToObject_origin:
  assumes "rowToObject env (mapped cs h) row f = Some v"
  shows "\<exists>c \<in> set cs. \<exists>n. destinationOrName c = f \<and> indexOf h (name c) = Some n \<and>
           v = convert env (type c) (cell row n)"
proof -
  from assms have "fold (store env row) (mapped cs h) Map.empty f = Some v"
    by (simp add: rowToObject_def)
  from fold_store_origin[OF this] obtain col where col: "col \<in> set (mapped cs h)"
    "key col = f" "v = convert env (type col) (cell row (number col))" by auto
  from mapped_origin[OF col(1)] col(2,3) show ?thesis by auto
qed

lemma loadCSV_resolved_inv:
  assumes "loadCSV env filename spec = (io, Resolved recs)"
    and "fileExists env filename"
    and "batches env filename = (header # rows) # later"
  shows "recs = map (rowToObject env (mapped (columns spec) header)) (rows @ concat later)"
proof -
  from assms(1) have ok: "findSpecError env spec = None"
    by (cases "findSpecError env spec") (simp_all add: loadCSV_spec_error)
  from loadCSV_parsed[OF ok assms(2,3)] assms(1) show ?thesis
    by (cases "extractColumnMapping (columns spec) (Some header) (Some filename)") simp_all
qed

lemma rowToObject_Nil: "rowToObject env [] row = Map.empty"
  by (simp add: rowToObject_def)

lemma loadCSV_nonempty_record:
  assumes "loadCSV env filename spec = (io, Resolved recs)" and "obj \<in> set recs" and "obj f = Some v"
  shows "fileExists env filename \<and> (\<exists>header rows later. batches env filename = (header # rows) # later)"
proof -
  from assms(1) have ok: "findSpecError env spec = None"
    by (cases "findSpecError env spec") (simp_all add: loadCSV_spec_error)
  have ex: "fileExists env filename"
  proof (rule ccontr)
    assume "\<not> fileExists env filename"
    with ok assms(1) have "recs = []" by (simp add: loadCSV_def split: if_splits)
    with assms(2) show False by simp
  qed
  from ok ex assms(1) obtain st where
    st: "parseCSV (batches env filename) (callback env filename spec)
           \<lparr>isFirst = True, mapping = None, values_v = []\<rparr> = Inr st"
    and recs: "recs = values_v st"
    by (auto simp: loadCSV_def split: sum.splits)
  show ?thesis
  proof (cases "batches env filename")
    case Nil
    with st recs assms(2) show ?thesis by auto
  next
    case (Cons b later)
    show ?thesis
    proof (cases b)
      case Nil
      with Cons st obtain cols where
        e: "extractColumnMapping (columns spec) None (Some filename) = Inr cols"
        by (auto simp: callback_def Let_def split: sum.splits)
      from extract_no_header[OF e] have c: "cols = []" by simp
      from st Cons Nil e c have "st = \<lparr>isFirst = False, mapping = Some [],
          values_v = map (rowToObject env []) (concat later)\<rparr>"
        by (simp add: callback_def Let_def addDestinations_def parseCSV_later)
      with recs assms(2) have "obj = Map.empty" by (auto simp: rowToObject_Nil)
      with assms(3) show ?thesis by simp
    next
      case (Cons header rows)
      with \<open>batches env filename = b # later\<close> ex show ?thesis by simp
    qed
  qed
qed

lemmas Number_eval =
  Number_def isAscii_def trim_def isWhiteSpace_def isDigit_def isSign_def DecimalDigits_def
  SignedInteger_def ExponentPart_opt_def StrUnsignedDecimalLiteral_def StrDecimalLiteral_def
  NonDecimalIntegerLiteral_def StrNumericLiteral_def

lemmas loadCSV_eval =
  callback_def Let_def truthyBool_def indexed_def addDestinations_def destinationOrName_def
  rowToObject_def store_def key_def convert_def cell_def

lemma example_load:
  "loadCSV exampleEnv ''stops.txt'' exampleSpec =
     ([FileExists ''stops.txt'', ParseCSV ''stops.txt''],
      Resolved [[''id'' \<mapsto> Str ''s1'', ''lat'' \<mapsto> Num (Val 41), ''wheelchair'' \<mapsto> Bool True],
                [''id'' \<mapsto> Str ''s2'', ''lat'' \<mapsto> Num NaN, ''wheelchair'' \<mapsto> Bool False]])"
proof -
  have "findSpecError exampleEnv exampleSpec = None"
    by (simp add: findSpecError_def exampleEnv_def exampleSpec_def destinationOrName_def
          truthyString_def)
  then show ?thesis
    by (simp add: loadCSV_def)
       (simp add: exampleEnv_def exampleSpec_def loadCSV_eval Number_eval)
qed

lemma example_batches:
  "batches exampleEnv ''stops.txt'' =
     ([''wheelchair'', ''note'', ''stop_id'', ''lat''] # [[''1'', ''x'', ''s1'', ''41'']]) #
       [[[''TRUE'', ''y'', ''s2'', ''north'']]]"
  by (simp add: exampleEnv_def)

lemma example_distinct: "distinct (map destinationOrName (columns exampleSpec))"
  by (simp add: exampleSpec_def destinationOrName_def)

text \<open>
  Claim C2, as amended. In a load that resolves, of a file whose first batch starts with a
  header row, take a column of the specification of type \<open>BOOLEAN\<close> that stands at position
  \<open>n\<close> of the header, whose field name is not \<^verbatim>\<open>__proto__\<close>, and after which the
  specification lists no column of the same field name that occurs in the header. Then in
  the record of every data row the field of that column is the boolean "the row has a cell at
  position \<open>n\<close> and it is the string 1": false for every other cell and for a row too short
  to have the cell.
\<close>

theorem loadCSV_boolean_field:
  assumes "loadCSV env filename spec = (io, Resolved recs)"
    and "fileExists env filename"
    and "batches env filename = (header # rows) # later"
    and "columns spec = before @ c # after"
    and "list_all (\<lambda>c'. destinationOrName c' \<noteq> destinationOrName c \<or> name c' \<notin> set header) after"
    and "destinationOrName c \<noteq> ''__proto__''"
    and "type c = BOOLEAN" and "indexOf header (name c) = Some n"
    and "i < length (rows @ concat later)" and "row = (rows @ concat later) ! i"
  shows "i < length recs \<and>
         (recs ! i) (destinationOrName c) = Some (Bool (n < length row \<and> row ! n = ''1''))"
proof -
  from loadCSV_resolved_inv[OF assms(1,2,3)]
  have recs: "recs = map (rowToObject env (mapped (columns spec) header)) (rows @ concat later)" .
  with assms(9) have len: "i < length recs" by simp
  from assms(9) have "recs ! i = rowToObject env (mapped (columns spec) header) ((rows @ concat later) ! i)"
    unfolding recs by (rule nth_map)
  with rowToObject_field[OF assms(4,5,6,8), of env row] assms(7,10)
  have "(recs ! i) (destinationOrName c) = Some (Bool (cell row n = Some ''1''))"
    by (simp add: convert_def)
  moreover have "(cell row n = Some ''1'') = (n < length row \<and> row ! n = ''1'')"
    by (simp add: cell_def)
  ultimately show ?thesis using len by simp
qed

theorem loadCSV_boolean_field_witness:
  "loadCSV exampleEnv ''stops.txt'' exampleSpec =
     ([FileExists ''stops.txt'', ParseCSV ''stops.txt''],
      Resolved [[''id'' \<mapsto> Str ''s1'', ''lat'' \<mapsto> Num (Val 41), ''wheelchair'' \<mapsto> Bool True],
                [''id'' \<mapsto> Str ''s2'', ''lat'' \<mapsto> Num NaN, ''wheelchair'' \<mapsto> Bool False]]) \<and>
   fileExists exampleEnv ''stops.txt'' \<and>
   batches exampleEnv ''stops.txt'' =
     ([''wheelchair'', ''note'', ''stop_id'', ''lat''] # [[''1'', ''x'', ''s1'', ''41'']]) #
       [[[''TRUE'', ''y'', ''s2'', ''north'']]] \<and>
   columns exampleSpec =
     [\<lparr>name = ''stop_id'', type = STRING, optional = None, destination = Some ''id''\<rparr>,
      \<lparr>name = ''lat'', type = NUMERIC, optional = None, destination = None\<rparr>] @
     \<lparr>name = ''wheelchair'', type = BOOLEAN, optional = Some True, destination = None\<rparr> #
     [\<lparr>name = ''zone'', type = STRING, optional = Some True, destination = None\<rparr>] \<and>
   indexOf [''wheelchair'', ''note'', ''stop_id'', ''lat''] ''wheelchair'' = Some 0 \<and>
   ([''id'' \<mapsto> Str ''s1'', ''lat'' \<mapsto> Num (Val 41), ''wheelchair'' \<mapsto> Bool True] :: int object)
      ''wheelchair'' = Some (Bool True) \<and>
   ([''id'' \<mapsto> Str ''s2'', ''lat'' \<mapsto> Num NaN, ''wheelchair'' \<mapsto> Bool False] :: int object)
      ''wheelchair'' =
      Some (Bool (0 < length [''TRUE'', ''y'', ''s2'', ''north''] \<and>
                  [''TRUE'', ''y'', ''s2'', ''north''] ! 0 = ''1''))"
proof -
  let ?c = "\<lparr>name = ''wheelchair'', type = BOOLEAN, optional = Some True, destination = None\<rparr>"
  let ?before = "[\<lparr>name = ''stop_id'', type = STRING, optional = None, destination = Some ''id''\<rparr>,
      \<lparr>name = ''lat'', type = NUMERIC, optional = None, destination = None\<rparr>]"
  let ?after = "[\<lparr>name = ''zone'', type = STRING, optional = Some True, destination = None\<rparr>]"
  let ?h = "[''wheelchair'', ''note'', ''stop_id'', ''lat'']"
  let ?data = "[[''1'', ''x'', ''s1'', ''41'']] @ concat [[[''TRUE'', ''y'', ''s2'', ''north'']]]"
  have h2: "fileExists exampleEnv ''stops.txt''" by (simp add: exampleEnv_def)
  have h4: "columns exampleSpec = ?before @ ?c # ?after" by (simp add: exampleSpec_def)
  have h5: "list_all (\<lambda>c'. destinationOrName c' \<noteq> destinationOrName ?c \<or> name c' \<notin> set ?h) ?after"
    by (simp add: destinationOrName_def)
  have h6: "destinationOrName ?c \<noteq> ''__proto__''" by (simp add: destinationOrName_def)
  have h7: "type ?c = BOOLEAN" by simp
  have h8: "indexOf ?h (name ?c) = Some 0" by simp
  have i0: "(0::nat) < length ?data" by simp
  have i1: "(1::nat) < length ?data" by simp
  have r0: "[''1'', ''x'', ''s1'', ''41''] = ?data ! 0" by simp
  have r1: "[''TRUE'', ''y'', ''s2'', ''north''] = ?data ! 1" by simp
  from loadCSV_boolean_field[OF example_load h2 example_batches h4 h5 h6 h7 h8 i0 r0]
    loadCSV_boolean_field[OF example_load h2 example_batches h4 h5 h6 h7 h8 i1 r1]
    example_load h2 example_batches h4 h8
  show ?thesis by (simp add: destinationOrName_def)
qed

text \<open>
  Claim C2 as it stands fails at two inputs, both read from \<^verbatim>\<open>flags.txt\<close>, whose first data
  row holds the cell 1 in every column named below. For a boolean column named
  \<^verbatim>\<open>__proto__\<close> the load resolves with records that have no field at all. For a boolean
  column with the empty name followed by a string column with the empty name (a duplicate
  that \<open>findSpecError\<close> lets through) the field holds the string of the later column.
\<close>

theorem loadCSV_boolean_field_counterexample:
  "cell [''1'', ''1'', ''''] 0 = Some ''1'' \<and>
   loadCSV exampleEnv ''flags.txt''
     \<lparr>columns = [\<lparr>name = ''__proto__'', type = BOOLEAN, optional = None, destination = None\<rparr>],
      isOptional = None\<rparr> =
     ([FileExists ''flags.txt'', ParseCSV ''flags.txt''], Resolved [Map.empty, Map.empty]) \<and>
   cell [''1'', ''1'', ''''] 1 = Some ''1'' \<and>
   loadCSV exampleEnv ''flags.txt''
     \<lparr>columns = [\<lparr>name = '''', type = BOOLEAN, optional = None, destination = None\<rparr>,
                 \<lparr>name = '''', type = STRING, optional = None, destination = None\<rparr>],
      isOptional = None\<rparr> =
     ([FileExists ''flags.txt'', ParseCSV ''flags.txt''],
      Resolved [['''' \<mapsto> Str ''1''], ['''' \<mapsto> Str ''yes'']])"
proof -
  have a: "findSpecError exampleEnv
     \<lparr>columns = [\<lparr>name = ''__proto__'', type = BOOLEAN, optional = None, destination = None\<rparr>],
      isOptional = None\<rparr> = None"
    by (simp add: findSpecError_def exampleEnv_def destinationOrName_def truthyString_def)
  have b: "findSpecError exampleEnv
     \<lparr>columns = [\<lparr>name = '''', type = BOOLEAN, optional = None, destination = None\<rparr>,
                 \<lparr>name = '''', type = STRING, optional = None, destination = None\<rparr>],
      isOptional = None\<rparr> = None"
    by (simp add: findSpecError_def exampleEnv_def destinationOrName_def truthyString_def)
  have c: "cell [''1'', ''1'', ''''] 0 = Some ''1''" "cell [''1'', ''1'', ''''] 1 = Some ''1''"
    by (simp_all add: cell_def)
  show ?thesis
    using c by (simp add: loadCSV_def a b) (simp add: exampleEnv_def loadCSV_eval)
qed

text \<open>
  Claim C4. In a load that resolves, every field \<open>f\<close> of every record comes from a column of
  the specification: the file starts with a header row, some column \<open>c\<close> of the specification
  has \<open>f\<close> as its destination (its name when the destination is absent or empty), the name of
  \<open>c\<close> stands at a position \<open>n\<close> of the header, and the value of the field is the conversion,
  by the type of \<open>c\<close>, of the cell at position \<open>n\<close> of a data row. So a column of the header
  that the specification does not list gives no field to any record.
\<close>

theorem loadCSV_only_spec_columns:
  assumes "loadCSV env filename spec = (io, Resolved recs)" and "obj \<in> set recs" and "obj f = Some v"
  shows "\<exists>c \<in> set (columns spec). \<exists>header rows later n row.
           batches env filename = (header # rows) # later \<and>
           destinationOrName c = f \<and> indexOf header (name c) = Some n \<and>
           row \<in> set (rows @ concat later) \<and> v = convert env (type c) (cell row n)"
proof -
  from loadCSV_nonempty_record[OF assms] obtain header rows later where
    ex: "fileExists env filename" and b: "batches env filename = (header # rows) # later" by blast
  from loadCSV_resolved_inv[OF assms(1) ex b] assms(2) obtain row where
    row: "row \<in> set (rows @ concat later)" "obj = rowToObject env (mapped (columns spec) header) row"
    by auto
  from rowToObject_origin[of env "columns spec" header row f v] row(2) assms(3)
  obtain c n where "c \<in> set (columns spec)" "destinationOrName c = f"
    "indexOf header (name c) = Some n" "v = convert env (type c) (cell row n)" by auto
  with b row(1) show ?thesis by blast
qed

theorem loadCSV_only_spec_columns_witness:
  "loadCSV exampleEnv ''stops.txt'' exampleSpec =
     ([FileExists ''stops.txt'', ParseCSV ''stops.txt''],
      Resolved [[''id'' \<mapsto> Str ''s1'', ''lat'' \<mapsto> Num (Val 41), ''wheelchair'' \<mapsto> Bool True],
                [''id'' \<mapsto> Str ''s2'', ''lat'' \<mapsto> Num NaN, ''wheelchair'' \<mapsto> Bool False]]) \<and>
   ([''id'' \<mapsto> Str ''s1'', ''lat'' \<mapsto> Num (Val 41), ''wheelchair'' \<mapsto> Bool True] :: int object)
      ''id'' = Some (Str ''s1'') \<and>
   ([''id'' \<mapsto> Str ''s1'', ''lat'' \<mapsto> Num (Val 41), ''wheelchair'' \<mapsto> Bool True] :: int object)
      ''note'' = None \<and>
   (\<exists>c \<in> set (columns exampleSpec). \<exists>header rows later n row.
       batches exampleEnv ''stops.txt'' = (header # rows) # later \<and>
       destinationOrName c = ''id'' \<and> indexOf header (name c) = Some n \<and>
       row \<in> set (rows @ concat later) \<and> Str ''s1'' = convert exampleEnv (type c) (cell row n))"
proof -
  let ?o = "[''id'' \<mapsto> Str ''s1'', ''lat'' \<mapsto> Num (Val 41), ''wheelchair'' \<mapsto> Bool True] :: int object"
  let ?o' = "[''id'' \<mapsto> Str ''s2'', ''lat'' \<mapsto> Num NaN, ''wheelchair'' \<mapsto> Bool False] :: int object"
  have h2: "?o \<in> set [?o, ?o']" by simp
  have h3: "?o ''id'' = Some (Str ''s1'')" by simp
  have h4: "?o ''note'' = None" by simp
  from loadCSV_only_spec_columns[OF example_load h2 h3] example_load h3 h4
  show ?thesis by blast
qed




text \<open>
  When \<open>findDuplicate\<close> reports a field with a non-empty name, the load is rejected with
  the duplicate-field error before any call to the file system.
\<close>

lemma loadCSV_duplicate_field:
  assumes "findDuplicate env (map destinationOrName (columns spec)) = Some d" and "d \<noteq> []"
  shows "loadCSV env filename spec = ([], Rejected (DuplicateField d))"
  using assms by (simp add: loadCSV_def findSpecError_def truthyString_def)

text \<open>
  Claim C9, at the input where the code departs from it. Two columns whose name is the empty
  string and that have no destination resolve to the same field, the empty string. Whatever
  \<open>findDuplicate\<close> returns there (an element of its argument, so the empty string, or
  nothing) is falsy, so \<open>findSpecError\<close> finds no error: the loader goes on to ask whether the
  file exists, and for a missing optional file it resolves to the empty list instead of
  rejecting with the duplicate-field error.
\<close>

theorem loadCSV_empty_duplicate:
  assumes "\<forall>xs. set_option (findDuplicate env xs) \<subseteq> set xs" and "\<not> fileExists env filename"
  shows "\<not> distinct (map destinationOrName
            (columns \<lparr>columns =
                [\<lparr>name = '''', type = STRING, optional = None, destination = None\<rparr>,
                 \<lparr>name = '''', type = STRING, optional = None, destination = None\<rparr>],
               isOptional = Some True\<rparr>)) \<and>
         loadCSV env filename
           \<lparr>columns =
               [\<lparr>name = '''', type = STRING, optional = None, destination = None\<rparr>,
                \<lparr>name = '''', type = STRING, optional = None, destination = None\<rparr>],
            isOptional = Some True\<rparr> = ([FileExists filename], Resolved [])"
proof -
  let ?e = "\<lparr>name = '''', type = STRING, optional = None, destination = None\<rparr>"
  let ?spec = "\<lparr>columns = [?e, ?e], isOptional = Some True\<rparr>"
  have fields: "map destinationOrName (columns ?spec) = ['''', '''']"
    by (simp add: destinationOrName_def)
  from assms(1) have "set_option (findDuplicate env ['''', '''']) \<subseteq> set ['''', '''']" by blast
  then have "\<not> truthyString (findDuplicate env ['''', ''''])"
    by (cases "findDuplicate env ['''', '''']") (simp_all add: truthyString_def)
  with fields have "findSpecError env ?spec = None"
    by (simp add: findSpecError_def)
  with assms(2) have "loadCSV env filename ?spec = ([FileExists filename], Resolved [])"
    by (simp add: loadCSV_def truthyBool_def)
  with fields show ?thesis by simp
qed

theorem loadCSV_empty_duplicate_witness:
  "(\<forall>xs. set_option (findDuplicate exampleEnv xs) \<subseteq> set xs) \<and>
   findDuplicate exampleEnv ['''', ''''] = Some '''' \<and>
   \<not> fileExists exampleEnv ''routes.txt'' \<and>
   loadCSV exampleEnv ''routes.txt''
     \<lparr>columns =
         [\<lparr>name = '''', type = STRING, optional = None, destination = None\<rparr>,
          \<lparr>name = '''', type = STRING, optional = None, destination = None\<rparr>],
      isOptional = Some True\<rparr> = ([FileExists ''routes.txt''], Resolved [])"
proof -
  have h1: "\<forall>xs. set_option (findDuplicate exampleEnv xs) \<subseteq> set xs"
  proof
    fix xs
    show "set_option (findDuplicate exampleEnv xs) \<subseteq> set xs"
      by (cases "List.find (\<lambda>x. 1 < count_list xs x) xs")
         (auto simp: exampleEnv_def find_Some_iff)
  qed
  have h2: "\<not> fileExists exampleEnv ''routes.txt''" by (simp add: exampleEnv_def)
  have h3: "findDuplicate exampleEnv ['''', ''''] = Some ''''" by (simp add: exampleEnv_def)
  from loadCSV_empty_duplicate[OF h1 h2] h1 h2 h3 show ?thesis by simp
qed

section \<open>Properties of the OverlayMap component\<close>

lemma emit_simps [simp]:
  "props (emit cs this) = props this"
  "mapIsReady (emit cs this) = mapIsReady this"
  "overlay (emit cs this) = overlay this"
  "listeners (emit cs this) = listeners this"
  "calls (emit cs this) = calls this @ cs"
  by (simp_all add: emit_def)

lemma emit_Nil [simp]: "emit [] this = this"
  by (simp add: emit_def)

lemma boundsChangedListener_emit:
  "boundsChangedListener this vp =
     emit (Overlay_draw #
           (case onBoundsChanged (props this) of
              None \<Rightarrow> []
            | Some h \<Rightarrow>
                [Call_onBoundsChanged h
                   \<lparr>center = \<lparr>lat = lat (getCenter vp), lng = lng (getCenter vp)\<rparr>,
                    zoomLevel = getZoom vp,
                    northeast = \<lparr>lat = lat (getNorthEast vp), lng = lng (getNorthEast vp)\<rparr>,
                    southwest = \<lparr>lat = lat (getSouthWest vp), lng = lng (getSouthWest vp)\<rparr>\<rparr>]))
       this"
  by (simp add: boundsChangedListener_def Let_def emit_def split: option.split)

lemma clickListener_emit:
  "clickListener hitTest this ev =
     emit (case onClick (props this) of
             None \<Rightarrow> []
           | Some h \<Rightarrow>
               [Overlay_hitTest (latLng ev),
                Call_onClick h ev (map_option fst (hitTest (latLng ev)))
                  (map_option snd (hitTest (latLng ev)))]) this"
  by (simp add: clickListener_def Let_def andAlso_def map_option_case split: option.split)

lemma idleListener_emit:
  "idleListener this =
     emit (case onLoad (props this) of None \<Rightarrow> [] | Some h \<Rightarrow> [Call_onLoad h])
       (this\<lparr>mapIsReady := True\<rparr>)"
  by (simp add: idleListener_def)

lemma runListener_frame:
  "props (runListener hitTest l ev this) = props this"
  "overlay (runListener hitTest l ev this) = overlay this"
  "listeners (runListener hitTest l ev this) = listeners this"
  "filter (\<lambda>c. c = Overlay_new) (calls (runListener hitTest l ev this)) =
     filter (\<lambda>c. c = Overlay_new) (calls this)"
  by (cases l; cases ev;
      simp add: idleListener_emit clickListener_emit boundsChangedListener_emit
        mouseMoveListener_def Let_def split: option.split)+

lemma deliver_frame:
  "deliver hitTest ev rs this = Some this' \<Longrightarrow>
     props this' = props this \<and> overlay this' = overlay this \<and> listeners this' = listeners this \<and>
     filter (\<lambda>c. c = Overlay_new) (calls this') = filter (\<lambda>c. c = Overlay_new) (calls this)"
proof (induction rs arbitrary: this)
  case Nil
  then show ?case by simp
next
  case (Cons r rs)
  show ?case
  proof (cases "event r \<noteq> eventName ev")
    case True
    with Cons.prems have "deliver hitTest ev rs this = Some this'" by simp
    from Cons.IH[OF this] show ?thesis .
  next
    case False
    with Cons.prems have "deliver hitTest ev rs (runListener hitTest (listener r) ev this) = Some this'"
      by (simp split: option.splits)
    from Cons.IH[OF this] show ?thesis by (simp add: runListener_frame)
  qed
qed

lemma deliver_filter:
  "deliver hitTest ev rs this = deliver hitTest ev (filter (\<lambda>r. event r = eventName ev) rs) this"
  by (induction rs arbitrary: this) (simp_all split: option.split)

lemma fire_frame:
  assumes "fire hitTest this ev = Some this'"
  shows "props this' = props this \<and> overlay this' = overlay this \<and>
     listeners this' = filter (\<lambda>r. \<not> (once r \<and> event r = eventName ev)) (listeners this) \<and>
     filter (\<lambda>c. c = Overlay_new) (calls this') = filter (\<lambda>c. c = Overlay_new) (calls this)"
proof -
  from assms obtain d where d: "deliver hitTest ev (listeners this) this = Some d"
    and t: "this' = d\<lparr>listeners := filter (\<lambda>r. \<not> (once r \<and> event r = eventName ev)) (listeners d)\<rparr>"
    by (auto simp: fire_def)
  from deliver_frame[OF d] t show ?thesis by simp
qed

lemma componentDidUpdate_frame:
  "props (componentDidUpdate u this prevProps) = props this"
  "overlay (componentDidUpdate u this prevProps) = overlay this"
  "listeners (componentDidUpdate u this prevProps) = listeners this"
  "filter (\<lambda>c. c = Overlay_new) (calls (componentDidUpdate u this prevProps)) =
     filter (\<lambda>c. c = Overlay_new) (calls this)"
  by (simp_all add: componentDidUpdate_def Let_def)

lemma mounted_inv:
  assumes "mounted this"
  shows "filter (\<lambda>r. event r = ''bounds_changed'') (listeners this) =
           [\<lparr>event = ''bounds_changed'', once = False, throttle = None,
             listener = BoundsChangedListener\<rparr>] \<and>
         filter (\<lambda>r. event r = ''click'') (listeners this) =
           [\<lparr>event = ''click'', once = False, throttle = None, listener = ClickListener\<rparr>] \<and>
         onFault (overlay this) = (\<lambda>currentProps error. [Call_onError (onError currentProps) error]) \<and>
         filter (\<lambda>c. c = Overlay_new) (calls this) = [Overlay_new]"
  using assms
proof (induction rule: mounted.induct)
  case (mount p)
  show ?case
    by (simp add: componentDidMount_def constructor_def Let_def split: option.split)
next
  case (newProps this p)
  then show ?case by simp
next
  case (didUpdate this u prevProps)
  then show ?case by (simp add: componentDidUpdate_frame)
next
  case (delivered this hitTest ev this')
  from fire_frame[OF delivered.hyps(2)] have
    f: "overlay this' = overlay this"
    "listeners this' = filter (\<lambda>r. \<not> (once r \<and> event r = eventName ev)) (listeners this)"
    "filter (\<lambda>c. c = Overlay_new) (calls this') =
       filter (\<lambda>c. c = Overlay_new) (calls this)"
    by blast+
  have "filter (\<lambda>r. event r = ''bounds_changed'') (listeners this') =
      filter (\<lambda>r. \<not> (once r \<and> event r = eventName ev))
        (filter (\<lambda>r. event r = ''bounds_changed'') (listeners this))"
    unfolding f(2) by (simp add: conj_commute)
  moreover have "filter (\<lambda>r. event r = ''click'') (listeners this') =
      filter (\<lambda>r. \<not> (once r \<and> event r = eventName ev))
        (filter (\<lambda>r. event r = ''click'') (listeners this))"
    unfolding f(2) by (simp add: conj_commute)
  ultimately show ?case using delivered.IH f(1,3) by simp
next
  case (fault this e)
  then show ?case by (simp add: reportFault_def)
next
  case (throttled this r wait hitTest ev)
  then show ?case by (simp add: runListener_frame)
qed

lemma once_filter_id:
  assumes "filter (\<lambda>r. event r = n) rs = [reg]" and "\<not> once reg"
  shows "filter (\<lambda>r. \<not> (once r \<and> event r = n)) rs = rs"
proof -
  have "\<forall>r \<in> set rs. \<not> (once r \<and> event r = n)"
  proof
    fix r assume r: "r \<in> set rs"
    show "\<not> (once r \<and> event r = n)"
    proof
      assume a: "once r \<and> event r = n"
      with r have "r \<in> set (filter (\<lambda>r. event r = n) rs)" by simp
      with assms(1) have "r = reg" by simp
      with a assms(2) show False by simp
    qed
  qed
  then show ?thesis by (simp add: filter_id_conv)
qed

lemma fire_bounds_changed:
  assumes "mounted this"
  shows "fire hitTest this (BoundsChanged vp) = Some (boundsChangedListener this vp)"
proof -
  let ?reg = "\<lparr>event = ''bounds_changed'', once = False, throttle = None,
               listener = BoundsChangedListener\<rparr>"
  from mounted_inv[OF assms] have
    l: "filter (\<lambda>r. event r = ''bounds_changed'') (listeners this) = [?reg]" by blast
  have n: "eventName (BoundsChanged vp) = ''bounds_changed''" by (simp add: eventName_def)
  have "deliver hitTest (BoundsChanged vp) (listeners this) this
          = deliver hitTest (BoundsChanged vp) [?reg] this"
    using deliver_filter[of hitTest "BoundsChanged vp" "listeners this" this] l n by simp
  also have "\<dots> = Some (boundsChangedListener this vp)" by (simp add: n)
  finally have d: "deliver hitTest (BoundsChanged vp) (listeners this) this
                     = Some (boundsChangedListener this vp)" .
  have "filter (\<lambda>r. \<not> (once r \<and> event r = ''bounds_changed'')) (listeners this) = listeners this"
    by (rule once_filter_id[OF l]) simp
  with d n show ?thesis
    by (simp add: fire_def boundsChangedListener_emit)
qed

lemma fire_click:
  assumes "mounted this"
  shows "fire hitTest this (Click ev) = Some (clickListener hitTest this ev)"
proof -
  let ?reg = "\<lparr>event = ''click'', once = False, throttle = None, listener = ClickListener\<rparr>"
  from mounted_inv[OF assms] have
    l: "filter (\<lambda>r. event r = ''click'') (listeners this) = [?reg]" by blast
  have n: "eventName (Click ev) = ''click''" by (simp add: eventName_def)
  have "deliver hitTest (Click ev) (listeners this) this = deliver hitTest (Click ev) [?reg] this"
    using deliver_filter[of hitTest "Click ev" "listeners this" this] l n by simp
  also have "\<dots> = Some (clickListener hitTest this ev)" by (simp add: n)
  finally have d: "deliver hitTest (Click ev) (listeners this) this
                     = Some (clickListener hitTest this ev)" .
  have "filter (\<lambda>r. \<not> (once r \<and> event r = ''click'')) (listeners this) = listeners this"
    by (rule once_filter_id[OF l]) simp
  with d n show ?thesis
    by (simp add: fire_def clickListener_emit)
qed

lemma anyChanged_iff:
  "anyChanged u ps \<longleftrightarrow> (\<exists>i < length ps. \<not> shallowEqual u (fst (ps ! i)) (snd (ps ! i)))"
proof (induction ps)
  case Nil
  then show ?case by simp
next
  case (Cons p ps)
  obtain a b where p: "p = (a, b)" by (cases p)
  show ?case
  proof (cases "shallowEqual u a b")
    case True
    have "(\<exists>i < length (p # ps). \<not> shallowEqual u (fst ((p # ps) ! i)) (snd ((p # ps) ! i)))
        \<longleftrightarrow> (\<exists>i < length ps. \<not> shallowEqual u (fst (ps ! i)) (snd (ps ! i)))"
      using True p by (auto simp: less_Suc_eq_0_disj)
    with Cons.IH True p show ?thesis by simp
  next
    case False
    then have "\<not> shallowEqual u (fst ((p # ps) ! 0)) (snd ((p # ps) ! 0))" using p by simp
    then have "\<exists>i < length (p # ps). \<not> shallowEqual u (fst ((p # ps) ! i)) (snd ((p # ps) ! i))"
      by (intro exI[of _ 0]) simp
    with False p show ?thesis by simp
  qed
qed

lemma didDataChange_iff:
  assumes "\<forall>xs ys. length xs = length ys \<longrightarrow> zip_utils u xs ys = zip xs ys"
  shows "didDataChange u xs ys \<longleftrightarrow>
           length xs \<noteq> length ys \<or> (\<exists>i < length xs. \<not> shallowEqual u (xs ! i) (ys ! i))"
proof (cases "length xs = length ys")
  case True
  with assms have z: "zip_utils u xs ys = zip xs ys" by blast
  from True show ?thesis
    by (auto simp: didDataChange_def z anyChanged_iff)
next
  case False
  then show ?thesis by (simp add: didDataChange_def)
qed

lemma componentDidUpdate_calls:
  "calls (componentDidUpdate u this prevProps) =
     calls this @
     (if didDataChange u (data (props this)) (data prevProps)
      then [Overlay_updateData (data (props this))] else []) @
     (if view (props this) \<noteq> view prevProps
      then [Map_setCenter (center (view (props this))), Map_setZoom (zoomLevel (view (props this)))]
      else []) @
     (if controlPosition (props this) \<noteq> controlPosition prevProps \<or>
         hideControls (props this) \<noteq> hideControls prevProps
      then [Map_setControls (\<not> truthyBool (hideControls (props this)))
              (positionOrDefault (controlPosition (props this)))]
      else [])"
  by (simp add: componentDidUpdate_def Let_def)

text \<open>
  Claim C5. Where \<open>utils.zip\<close> pairs the elements of two arrays of the same length position
  by position: among the calls of one \<open>componentDidUpdate\<close> there is a call of the overlay's
  \<open>updateData\<close> exactly when the new and the previous data differ in length or, at some
  position, the new and the previous element are not shallow-equal. It is then the only such
  call and passes the new data; when the lengths agree and every pair is shallow-equal, there
  is none.
\<close>

theorem componentDidUpdate_updateData:
  assumes "\<forall>xs ys. length xs = length ys \<longrightarrow> zip_utils u xs ys = zip xs ys"
  shows "filter (\<lambda>c. case c of Overlay_updateData d \<Rightarrow> True | _ \<Rightarrow> False)
           (drop (length (calls this)) (calls (componentDidUpdate u this prevProps))) =
         (if length (data (props this)) \<noteq> length (data prevProps) \<or>
             (\<exists>i < length (data (props this)).
                \<not> shallowEqual u (data (props this) ! i) (data prevProps ! i))
          then [Overlay_updateData (data (props this))] else [])"
  unfolding componentDidUpdate_calls didDataChange_iff[OF assms] by simp

theorem componentDidUpdate_updateData_witness:
  "filter (\<lambda>c. case c of Overlay_updateData d \<Rightarrow> True | _ \<Rightarrow> False)
     (drop (length (calls (exampleMap\<lparr>props := exampleProps\<lparr>data := [1, 3]\<rparr>\<rparr>)))
        (calls (componentDidUpdate \<lparr>shallowEqual = (=), zip_utils = zip\<rparr>
                  (exampleMap\<lparr>props := exampleProps\<lparr>data := [1, 3]\<rparr>\<rparr>) exampleProps))) =
     [Overlay_updateData [1, 3]] \<and>
   filter (\<lambda>c. case c of Overlay_updateData d \<Rightarrow> True | _ \<Rightarrow> False)
     (drop (length (calls exampleMap))
        (calls (componentDidUpdate \<lparr>shallowEqual = (=), zip_utils = zip\<rparr> exampleMap exampleProps))) = []"
proof -
  let ?u = "\<lparr>shallowEqual = (=), zip_utils = zip\<rparr> :: nat Utils"
  have h: "\<forall>xs ys. length xs = length ys \<longrightarrow> zip_utils ?u xs ys = zip xs ys" by simp
  have p: "props exampleMap = exampleProps"
    by (simp add: exampleMap_def componentDidMount_def constructor_def Let_def)
  have d: "data exampleProps = [1, 2]" by (simp add: exampleProps_def)
  have a: "\<exists>i<length [1, 3::nat]. [1, 3::nat] ! i \<noteq> [1, 2] ! i" by (intro exI[of _ 1]) simp
  have b: "\<not> (\<exists>i<length [1, 2::nat]. [1, 2::nat] ! i \<noteq> [1, 2] ! i)" by simp
  from componentDidUpdate_updateData[OF h, of "exampleMap\<lparr>props := exampleProps\<lparr>data := [1, 3]\<rparr>\<rparr>" exampleProps]
    componentDidUpdate_updateData[OF h, of exampleMap exampleProps] a b
  show ?thesis by (simp add: p d)
qed

lemma draws_boundsChangedListener:
  "length (filter (\<lambda>c. c = Overlay_draw) (calls (boundsChangedListener this vp))) =
     length (filter (\<lambda>c. c = Overlay_draw) (calls this)) + 1"
  by (simp add: boundsChangedListener_emit split: option.split)

lemma fireAll_bounds_changed:
  assumes "mounted this"
  shows "\<exists>this'. fireAll hitTest this (map BoundsChanged vps) = Some this' \<and>
           length (filter (\<lambda>c. c = Overlay_draw) (calls this')) =
             length (filter (\<lambda>c. c = Overlay_draw) (calls this)) + length vps"
  using assms
proof (induction vps arbitrary: this)
  case Nil
  then show ?case by simp
next
  case (Cons vp vps)
  have f: "fire hitTest this (BoundsChanged vp) = Some (boundsChangedListener this vp)"
    by (rule fire_bounds_changed[OF Cons.prems])
  with Cons.prems have "mounted (boundsChangedListener this vp)"
    by (rule mounted.delivered)
  from Cons.IH[OF this] obtain this' where
    t: "fireAll hitTest (boundsChangedListener this vp) (map BoundsChanged vps) = Some this'"
    "length (filter (\<lambda>c. c = Overlay_draw) (calls this')) =
       length (filter (\<lambda>c. c = Overlay_draw) (calls (boundsChangedListener this vp))) + length vps"
    by blast
  from t f show ?case by (simp add: draws_boundsChangedListener)
qed

text \<open>
  Claim C6. A mounted component, in whatever state (after hovering too), has one listener for
  \<^verbatim>\<open>bounds_changed\<close>, registered without a throttle and not for once only. Each such event
  makes the component call the overlay's \<open>draw\<close> once, first, and then the handler
  \<open>onBoundsChanged\<close>, if there is one, with the bounds, centre and zoom read from the map;
  these are the only calls, and the rest of the component is as before. No state of the
  component is consulted to decide whether to draw. A run of \<open>n\<close> such events adds exactly
  \<open>n\<close> calls of \<open>draw\<close>.
\<close>

theorem bounds_changed_redraws:
  assumes "mounted this"
  shows "filter (\<lambda>r. event r = ''bounds_changed'') (listeners this) =
           [\<lparr>event = ''bounds_changed'', once = False, throttle = None,
             listener = BoundsChangedListener\<rparr>] \<and>
         fire hitTest this (BoundsChanged vp) =
           Some (this\<lparr>calls := calls this @ Overlay_draw #
                   (case onBoundsChanged (props this) of
                      None \<Rightarrow> []
                    | Some h \<Rightarrow>
                        [Call_onBoundsChanged h
                           \<lparr>center = \<lparr>lat = lat (getCenter vp), lng = lng (getCenter vp)\<rparr>,
                            zoomLevel = getZoom vp,
                            northeast = \<lparr>lat = lat (getNorthEast vp), lng = lng (getNorthEast vp)\<rparr>,
                            southwest = \<lparr>lat = lat (getSouthWest vp), lng = lng (getSouthWest vp)\<rparr>\<rparr>])\<rparr>) \<and>
         (\<exists>this'. fireAll hitTest this (map BoundsChanged vps) = Some this' \<and>
            length (filter (\<lambda>c. c = Overlay_draw) (calls this')) =
              length (filter (\<lambda>c. c = Overlay_draw) (calls this)) + length vps)"
proof -
  from mounted_inv[OF assms] have
    "filter (\<lambda>r. event r = ''bounds_changed'') (listeners this) =
           [\<lparr>event = ''bounds_changed'', once = False, throttle = None,
             listener = BoundsChangedListener\<rparr>]" by blast
  moreover note fire_bounds_changed[OF assms, of hitTest vp,
      unfolded boundsChangedListener_emit, unfolded emit_def]
  moreover note fireAll_bounds_changed[OF assms, of hitTest vps]
  ultimately show ?thesis by blast
qed

lemma exampleMap_mounted: "mounted exampleMap"
  unfolding exampleMap_def by (rule mounted.mount)

lemma exampleMap_props: "props exampleMap = exampleProps"
  by (simp add: exampleMap_def componentDidMount_def constructor_def Let_def)

text \<open>The example component after the mouse has moved over it and its hover listener has run.\<close>

lemma exampleMap_hovered: "mounted (mouseMoveListener hitTest ''pointer'' exampleMap ev)"
proof -
  let ?r = "\<lparr>event = ''mousemove'', once = False, throttle = Some 100,
             listener = MouseMoveListener ''pointer''\<rparr>"
  have "?r \<in> set (listeners exampleMap)"
    by (simp add: exampleMap_def componentDidMount_def constructor_def Let_def exampleProps_def)
  from mounted.throttled[OF exampleMap_mounted this, of 100 hitTest "MouseMove ev"]
  show ?thesis by simp
qed

lemma exampleMap_hovered_props [simp]:
  "props (mouseMoveListener hitTest pointer this ev) = props this"
  by (simp add: mouseMoveListener_def Let_def)

theorem bounds_changed_redraws_witness:
  "mounted (mouseMoveListener (\<lambda>p. None) ''pointer'' exampleMap \<lparr>latLng = \<lparr>lat = 40, lng = -74\<rparr>\<rparr>) \<and>
   fire (\<lambda>p. None)
     (mouseMoveListener (\<lambda>p. None) ''pointer'' exampleMap \<lparr>latLng = \<lparr>lat = 40, lng = -74\<rparr>\<rparr>)
     (BoundsChanged \<lparr>getNorthEast = \<lparr>lat = 41, lng = -73\<rparr>, getSouthWest = \<lparr>lat = 39, lng = -75\<rparr>,
                     getCenter = \<lparr>lat = 40, lng = -74\<rparr>, getZoom = 12\<rparr>) =
     Some ((mouseMoveListener (\<lambda>p. None) ''pointer'' exampleMap \<lparr>latLng = \<lparr>lat = 40, lng = -74\<rparr>\<rparr>)
             \<lparr>calls :=
                calls (mouseMoveListener (\<lambda>p. None) ''pointer'' exampleMap
                         \<lparr>latLng = \<lparr>lat = 40, lng = -74\<rparr>\<rparr>) @
                [Overlay_draw,
                 Call_onBoundsChanged ''handleBounds''
                   \<lparr>center = \<lparr>lat = 40, lng = -74\<rparr>, zoomLevel = 12,
                    northeast = \<lparr>lat = 41, lng = -73\<rparr>, southwest = \<lparr>lat = 39, lng = -75\<rparr>\<rparr>]\<rparr>) \<and>
   (\<exists>this'. fireAll (\<lambda>p. None)
        (mouseMoveListener (\<lambda>p. None) ''pointer'' exampleMap \<lparr>latLng = \<lparr>lat = 40, lng = -74\<rparr>\<rparr>)
        [BoundsChanged \<lparr>getNorthEast = \<lparr>lat = 41, lng = -73\<rparr>, getSouthWest = \<lparr>lat = 39, lng = -75\<rparr>,
                        getCenter = \<lparr>lat = 40, lng = -74\<rparr>, getZoom = 12\<rparr>,
         BoundsChanged \<lparr>getNorthEast = \<lparr>lat = 42, lng = -72\<rparr>, getSouthWest = \<lparr>lat = 40, lng = -74\<rparr>,
                        getCenter = \<lparr>lat = 41, lng = -73\<rparr>, getZoom = 12\<rparr>] = Some this' \<and>
      length (filter (\<lambda>c. c = Overlay_draw) (calls this')) =
        length (filter (\<lambda>c. c = Overlay_draw)
          (calls (mouseMoveListener (\<lambda>p. None) ''pointer'' exampleMap
                    \<lparr>latLng = \<lparr>lat = 40, lng = -74\<rparr>\<rparr>))) + 2)"
proof -
  let ?vp = "\<lparr>getNorthEast = \<lparr>lat = 41, lng = -73\<rparr>, getSouthWest = \<lparr>lat = 39, lng = -75\<rparr>,
              getCenter = \<lparr>lat = 40, lng = -74\<rparr>, getZoom = 12::int\<rparr>"
  let ?vp' = "\<lparr>getNorthEast = \<lparr>lat = 42, lng = -72\<rparr>, getSouthWest = \<lparr>lat = 40, lng = -74\<rparr>,
               getCenter = \<lparr>lat = 41, lng = -73\<rparr>, getZoom = 12::int\<rparr>"
  let ?comp = "mouseMoveListener (\<lambda>p. None) ''pointer'' exampleMap \<lparr>latLng = \<lparr>lat = 40, lng = -74\<rparr>\<rparr>
                 :: (int, nat, string, string, string, string) OverlayMap"
  have m: "mounted ?comp" by (rule exampleMap_hovered)
  have o: "onBoundsChanged (props ?comp) = Some ''handleBounds''"
    by (simp add: exampleMap_props exampleProps_def)
  from bounds_changed_redraws[OF m, of "\<lambda>p. None" ?vp "[?vp, ?vp']"] m
  show ?thesis unfolding o by (simp del: fireAll.simps)
qed

text \<open>
  Claim C7. On a click on the map of a mounted component, in whatever state, whose props hold
  an \<open>onClick\<close> handler, the component makes two calls and no other: it asks the overlay's
  \<open>hitTest\<close> at the click's position, and then calls the handler with the event, with the
  layer index and the feature when \<open>hitTest\<close> returns a pair (the index 0 like any other),
  and with \<^verbatim>\<open>null\<close> for both when it returns \<^verbatim>\<open>null\<close>.
\<close>

theorem click_resolved_by_hitTest:
  assumes "mounted this" and "onClick (props this) = Some h"
  shows "(hitTest (latLng ev) = Some (layerIndex, feature) \<longrightarrow>
            fire hitTest this (Click ev) =
              Some (this\<lparr>calls := calls this @
                      [Overlay_hitTest (latLng ev),
                       Call_onClick h ev (Some layerIndex) (Some feature)]\<rparr>)) \<and>
         (hitTest (latLng ev) = None \<longrightarrow>
            fire hitTest this (Click ev) =
              Some (this\<lparr>calls := calls this @
                      [Overlay_hitTest (latLng ev), Call_onClick h ev None None]\<rparr>))"
  using fire_click[OF assms(1), of hitTest ev] assms(2)
  by (simp add: clickListener_emit emit_def)

theorem click_resolved_by_hitTest_witness:
  "mounted exampleMap \<and> onClick (props exampleMap) = Some ''handleClick'' \<and>
   calls exampleMap =
     [Overlay_new, Map_new True TOP_RIGHT \<lparr>lat = 40, lng = -74\<rparr> 12 None None,
      Map_setCursor ''default'', Overlay_setMap, Overlay_updateData [1, 2], SetState] \<and>
   map_option calls
     (fire (\<lambda>p. if p = \<lparr>lat = 40, lng = -74\<rparr> then Some (0, ''triangleA'') else None) exampleMap
        (Click \<lparr>latLng = \<lparr>lat = 40, lng = -74\<rparr>\<rparr>)) =
     Some [Overlay_new, Map_new True TOP_RIGHT \<lparr>lat = 40, lng = -74\<rparr> 12 None None,
           Map_setCursor ''default'', Overlay_setMap, Overlay_updateData [1, 2], SetState,
           Overlay_hitTest \<lparr>lat = 40, lng = -74\<rparr>,
           Call_onClick ''handleClick'' \<lparr>latLng = \<lparr>lat = 40, lng = -74\<rparr>\<rparr> (Some 0)
             (Some ''triangleA'')] \<and>
   map_option calls
     (fire (\<lambda>p. if p = \<lparr>lat = 40, lng = -74\<rparr> then Some (0, ''triangleA'') else None) exampleMap
        (Click \<lparr>latLng = \<lparr>lat = 1040, lng = -74\<rparr>\<rparr>)) =
     Some [Overlay_new, Map_new True TOP_RIGHT \<lparr>lat = 40, lng = -74\<rparr> 12 None None,
           Map_setCursor ''default'', Overlay_setMap, Overlay_updateData [1, 2], SetState,
           Overlay_hitTest \<lparr>lat = 1040, lng = -74\<rparr>,
           Call_onClick ''handleClick'' \<lparr>latLng = \<lparr>lat = 1040, lng = -74\<rparr>\<rparr> None None]"
proof -
  let ?hit = "\<lambda>p. if p = \<lparr>lat = 40, lng = -74::int\<rparr> then Some (0::nat, ''triangleA'') else None"
  have c: "onClick (props exampleMap) = Some ''handleClick''"
    by (simp add: exampleMap_props exampleProps_def)
  have k: "calls exampleMap =
     [Overlay_new, Map_new True TOP_RIGHT \<lparr>lat = 40, lng = -74\<rparr> 12 None None,
      Map_setCursor ''default'', Overlay_setMap, Overlay_updateData [1, 2], SetState]"
    by (simp add: exampleMap_def componentDidMount_def constructor_def Let_def exampleProps_def
          truthyBool_def positionOrDefault_def DEFAULT_DRAGGABLE_CURSOR_def)
  from click_resolved_by_hitTest[OF exampleMap_mounted c, of ?hit "\<lparr>latLng = \<lparr>lat = 40, lng = -74\<rparr>\<rparr>" 0 "''triangleA''"]
    click_resolved_by_hitTest[OF exampleMap_mounted c, of ?hit "\<lparr>latLng = \<lparr>lat = 1040, lng = -74\<rparr>\<rparr>" 0 "''triangleA''"]
    exampleMap_mounted c k
  show ?thesis by simp
qed

text \<open>
  Claim C8. The constructor creates the overlay once, with one sink, the closure that
  forwards to \<open>onError\<close>. When the overlay reports a fault, to a component just constructed
  or in any later state of the mounted component, the sink it holds is that closure: the
  sink's calls grow by one call of the handler \<open>onError\<close> of the props of that moment,
  with the fault, and nothing else changes. The record of calls never holds a second
  construction of the overlay.
\<close>

theorem faults_forwarded_to_onError:
  "calls (constructor p) = [Overlay_new] \<and>
   sinkCalls (constructor p) = [] \<and>
   reportFault (constructor p) e =
     (constructor p)\<lparr>sinkCalls := [Call_onError (onError p) e]\<rparr> \<and>
   (mounted this \<longrightarrow>
      reportFault this e =
        this\<lparr>sinkCalls := sinkCalls this @ [Call_onError (onError (props this)) e]\<rparr> \<and>
      filter (\<lambda>c. c = Overlay_new) (calls this) = [Overlay_new])"
proof -
  have "mounted this \<longrightarrow>
      reportFault this e =
        this\<lparr>sinkCalls := sinkCalls this @ [Call_onError (onError (props this)) e]\<rparr> \<and>
      filter (\<lambda>c. c = Overlay_new) (calls this) = [Overlay_new]"
  proof
    assume "mounted this"
    from mounted_inv[OF this]
    show "reportFault this e =
        this\<lparr>sinkCalls := sinkCalls this @ [Call_onError (onError (props this)) e]\<rparr> \<and>
      filter (\<lambda>c. c = Overlay_new) (calls this) = [Overlay_new]"
      by (simp add: reportFault_def)
  qed
  then show ?thesis by (simp add: constructor_def reportFault_def)
qed

theorem faults_forwarded_to_onError_witness:
  "mounted (exampleMap\<lparr>props := exampleProps\<lparr>onError := ''laterHandler''\<rparr>\<rparr>) \<and>
   sinkCalls (exampleMap\<lparr>props := exampleProps\<lparr>onError := ''laterHandler''\<rparr>\<rparr>) = [] \<and>
   sinkCalls (reportFault (exampleMap\<lparr>props := exampleProps\<lparr>onError := ''laterHandler''\<rparr>\<rparr>)
                ''bad feature'') =
     [Call_onError ''laterHandler'' ''bad feature''] \<and>
   calls (reportFault (exampleMap\<lparr>props := exampleProps\<lparr>onError := ''laterHandler''\<rparr>\<rparr>)
            ''bad feature'') =
     [Overlay_new, Map_new True TOP_RIGHT \<lparr>lat = 40, lng = -74\<rparr> 12 None None,
      Map_setCursor ''default'', Overlay_setMap, Overlay_updateData [1, 2], SetState]"
proof -
  let ?comp = "exampleMap\<lparr>props := exampleProps\<lparr>onError := ''laterHandler''\<rparr>\<rparr>"
  have m: "mounted ?comp"
    by (rule mounted.newProps[OF exampleMap_mounted])
  have k: "calls exampleMap =
     [Overlay_new, Map_new True TOP_RIGHT \<lparr>lat = 40, lng = -74\<rparr> 12 None None,
      Map_setCursor ''default'', Overlay_setMap, Overlay_updateData [1, 2], SetState]"
    by (simp add: exampleMap_def componentDidMount_def constructor_def Let_def exampleProps_def
          truthyBool_def positionOrDefault_def DEFAULT_DRAGGABLE_CURSOR_def)
  have z: "sinkCalls exampleMap = []"
    by (simp add: exampleMap_def componentDidMount_def constructor_def Let_def emit_def)
  from faults_forwarded_to_onError[of exampleProps "''bad feature''" ?comp] m
  have r: "reportFault ?comp ''bad feature'' =
      ?comp\<lparr>sinkCalls := sinkCalls ?comp @ [Call_onError (onError (props ?comp)) ''bad feature'']\<rparr>"
    by blast
  have "sinkCalls (reportFault ?comp ''bad feature'') = [Call_onError ''laterHandler'' ''bad feature'']"
    unfolding r using z by simp
  moreover have "calls (reportFault ?comp ''bad feature'') = calls exampleMap"
    unfolding r by simp
  ultimately show ?thesis using m k z by simp
qed

end
